theory Spec2Isabelle
  imports Complex_Main
begin

section \<open>Arrays\<close>

text \<open>
  A NumPy array of floats is a nested list of reals: a one-dimensional array is a
  \<open>vec\<close>, a two-dimensional array a list of rows, and so on.  The arithmetic of the
  source is binary64 (binary32 inside the network); the model computes over the reals,
  so every statement below is about the formulas the code evaluates, read in exact
  arithmetic.
\<close>

type_synonym vec = "real list"
type_synonym mat = "real list list"
type_synonym ten3 = "real list list list"
type_synonym ten4 = "real list list list list"

definition zeros1 :: "nat \<Rightarrow> vec" where
  "zeros1 n = replicate n 0"

definition zeros2 :: "nat \<times> nat \<Rightarrow> mat" where
  "zeros2 s = replicate (fst s) (zeros1 (snd s))"

definition zeros3 :: "nat \<Rightarrow> nat \<Rightarrow> nat \<Rightarrow> ten3" where
  "zeros3 a b c = replicate a (zeros2 (b, c))"

definition zeros4 :: "nat \<Rightarrow> nat \<Rightarrow> nat \<Rightarrow> nat \<Rightarrow> ten4" where
  "zeros4 a b c d = replicate a (zeros3 b c d)"

text \<open>\<open>xs[start::step]\<close>: the entries at \<open>start, start + step, ...\<close>.\<close>

definition slice_step :: "nat \<Rightarrow> nat \<Rightarrow> 'a list \<Rightarrow> 'a list" where
  "slice_step start step xs =
     map (\<lambda>k. xs ! (start + step * k)) [0 ..< (length xs - start + step - 1) div step]"

text \<open>\<open>np.reshape(xs, (a, b))\<close> in row-major order (NumPy raises unless
  \<open>length xs = a * b\<close>).\<close>

definition reshape2 :: "'a list \<Rightarrow> nat \<times> nat \<Rightarrow> 'a list list" where
  "reshape2 xs s = map (\<lambda>i. take (snd s) (drop (i * snd s) xs)) [0 ..< fst s]"

text \<open>\<open>Z[1:-1, 1:-1] = R\<close>: the slice \<open>1:-1\<close> of an axis of length \<open>n\<close> is the
  index range \<open>1 \<le> i < n - 1\<close>.\<close>

definition inner_index :: "nat \<Rightarrow> nat \<Rightarrow> bool" where
  "inner_index n i \<longleftrightarrow> 1 \<le> i \<and> i < n - 1"

definition set_interior :: "'a list list \<Rightarrow> 'a list list \<Rightarrow> 'a list list" where
  "set_interior Z R =
     map (\<lambda>i. map (\<lambda>j. if inner_index (length Z) i \<and> inner_index (length (Z ! i)) j
                         then R ! (i - 1) ! (j - 1) else Z ! i ! j)
                   [0 ..< length (Z ! i)])
         [0 ..< length Z]"

text \<open>Elementwise arithmetic on arrays of equal shape, and \<open>ndarray.sum()\<close>.\<close>

definition gmul :: "mat \<Rightarrow> mat \<Rightarrow> mat" where
  "gmul A B = map2 (map2 (*)) A B"

definition gadd :: "mat \<Rightarrow> mat \<Rightarrow> mat" where
  "gadd A B = map2 (map2 (+)) A B"

definition gsub :: "mat \<Rightarrow> mat \<Rightarrow> mat" where
  "gsub A B = map2 (map2 (-)) A B"

definition gscale :: "real \<Rightarrow> mat \<Rightarrow> mat" where
  "gscale c A = map (map ((*) c)) A"

definition gsum :: "mat \<Rightarrow> real" where
  "gsum A = sum_list (map sum_list A)"

definition dot :: "vec \<Rightarrow> vec \<Rightarrow> real" where
  "dot r c = sum_list (map2 (*) r c)"

text \<open>\<open>np.matmul\<close> of two matrices, and the column \<open>A[:, j]\<close>.\<close>

definition matmul :: "mat \<Rightarrow> mat \<Rightarrow> mat" where
  "matmul A B = map (\<lambda>r. map (dot r) (transpose B)) A"

definition column :: "'a list list \<Rightarrow> nat \<Rightarrow> 'a list" where
  "column A j = map (\<lambda>r. r ! j) A"

section \<open>The reduced-order model object\<close>

text \<open>
  The fields of \<open>CustomedEqs\<close> that \<open>__init__\<close> reads from the snapshot files or
  obtains from its collaborators (the SVD, the Chebyshev differentiation matrices and
  grid, the normalisation statistics).  The fields \<open>__init__\<close> computes from these
  (\<open>Interior\<close>, \<open>Boundary\<close>, \<open>uBC\<close>, \<open>InteriorShape\<close>, the reduced tensors) are
  definitions below.  \<open>proj_mean\<close> and \<open>proj_std\<close> hold the single row of the
  \<open>(1, M)\<close> arrays of the source; \<open>grid_xc\<close> and \<open>grid_yc\<close> are the two grids
  returned by \<open>Chby2D.grid()\<close>.
\<close>

record CustomedEqs =
  Samples :: mat
  FieldShape :: "nat \<times> nat"
  parameters :: mat
  design_space :: mat
  ValidationParameters :: mat
  ValidationSamples :: mat
  Modes :: mat
  M :: nat
  dx :: mat
  dy :: mat
  dxp :: mat
  dyp :: mat
  grid_xc :: mat
  grid_yc :: mat
  projections :: mat
  proj_mean :: vec
  proj_std :: vec

definition NVAR :: nat where
  "NVAR = 3"

definition NVARLOAD :: nat where
  "NVARLOAD = 6"

definition InteriorShape :: "CustomedEqs \<Rightarrow> nat \<times> nat" where
  "InteriorShape ro = (fst (FieldShape ro) - 2, snd (FieldShape ro) - 2)"

definition Interior :: "CustomedEqs \<Rightarrow> mat" where
  "Interior ro =
     set_interior (zeros2 (FieldShape ro))
       (replicate (fst (InteriorShape ro)) (replicate (snd (InteriorShape ro)) 1))"

definition Boundary :: "CustomedEqs \<Rightarrow> mat" where
  "Boundary ro = map (map (\<lambda>x. 1 - x)) (Interior ro)"

definition uBC :: "CustomedEqs \<Rightarrow> mat" where
  "uBC ro =
     gmul (reshape2 (slice_step 1 NVARLOAD (column (Samples ro) 0)) (FieldShape ro))
          (Boundary ro)"

subsection \<open>Mode2Field\<close>

definition Mode2Field :: "CustomedEqs \<Rightarrow> vec \<Rightarrow> mat \<times> mat \<times> mat" where
  "Mode2Field ro Vec =
     (set_interior (zeros2 (FieldShape ro)) (reshape2 (slice_step 0 NVAR Vec) (InteriorShape ro)),
      set_interior (zeros2 (FieldShape ro)) (reshape2 (slice_step 1 NVAR Vec) (InteriorShape ro)),
      set_interior (zeros2 (FieldShape ro)) (reshape2 (slice_step 2 NVAR Vec) (InteriorShape ro)))"

text \<open>A grid point is on the boundary when it lies in the first or last row or column.\<close>

definition on_boundary :: "nat \<times> nat \<Rightarrow> nat \<Rightarrow> nat \<Rightarrow> bool" where
  "on_boundary s i j \<longleftrightarrow>
     i < fst s \<and> j < snd s \<and> (i = 0 \<or> i = fst s - 1 \<or> j = 0 \<or> j = snd s - 1)"

subsection \<open>Spectral derivatives\<close>

text \<open>The differentiation matrices \<open>dx\<close>, \<open>dy\<close>, \<open>dxp\<close>, \<open>dyp\<close> come from the
  Chebyshev collaborator; the derivative along the first axis multiplies from the left,
  the one along the second axis acts on the transposed grid.\<close>

definition Compute_d_dxc :: "CustomedEqs \<Rightarrow> mat \<Rightarrow> mat" where
  "Compute_d_dxc ro phi = matmul (dx ro) phi"

definition Compute_d_dyc :: "CustomedEqs \<Rightarrow> mat \<Rightarrow> mat" where
  "Compute_d_dyc ro phi = transpose (matmul (dy ro) (transpose phi))"

definition Compute_dp_dxc :: "CustomedEqs \<Rightarrow> mat \<Rightarrow> mat" where
  "Compute_dp_dxc ro phi = matmul (dxp ro) phi"

definition Compute_dp_dyc :: "CustomedEqs \<Rightarrow> mat \<Rightarrow> mat" where
  "Compute_dp_dyc ro phi = transpose (matmul (dyp ro) (transpose phi))"

definition Compute_d_dxc2 :: "CustomedEqs \<Rightarrow> mat \<Rightarrow> mat" where
  "Compute_d_dxc2 ro phi = Compute_d_dxc ro (Compute_d_dxc ro phi)"

definition Compute_d_dyc2 :: "CustomedEqs \<Rightarrow> mat \<Rightarrow> mat" where
  "Compute_d_dyc2 ro phi = Compute_d_dyc ro (Compute_d_dyc ro phi)"

definition Compute_d_dxcyc :: "CustomedEqs \<Rightarrow> mat \<Rightarrow> mat" where
  "Compute_d_dxcyc ro phi = Compute_d_dyc ro (Compute_d_dxc ro phi)"

definition Compute_d_d1 :: "CustomedEqs \<Rightarrow> mat \<Rightarrow> mat \<times> mat" where
  "Compute_d_d1 ro phi = (Compute_d_dxc ro phi, Compute_d_dyc ro phi)"

definition Compute_d_d1p :: "CustomedEqs \<Rightarrow> mat \<Rightarrow> mat \<times> mat" where
  "Compute_d_d1p ro phi = (Compute_dp_dxc ro phi, Compute_dp_dyc ro phi)"

definition Compute_d_d2 :: "CustomedEqs \<Rightarrow> mat \<Rightarrow> mat \<times> mat \<times> mat" where
  "Compute_d_d2 ro phi =
     (Compute_d_dxc2 ro phi, Compute_d_dyc2 ro phi, Compute_d_dxcyc ro phi)"

subsection \<open>The reduced tensors: getA and getB\<close>

text \<open>Index assignment \<open>T[a, b] = v\<close>, \<open>T[a, b, c] = v\<close>, \<open>T[a, b, c, d] = v\<close>.\<close>

definition upd2 :: "mat \<Rightarrow> nat \<Rightarrow> nat \<Rightarrow> real \<Rightarrow> mat" where
  "upd2 T a b v = T[a := (T ! a)[b := v]]"

definition upd3 :: "ten3 \<Rightarrow> nat \<Rightarrow> nat \<Rightarrow> nat \<Rightarrow> real \<Rightarrow> ten3" where
  "upd3 T a b c v = T[a := upd2 (T ! a) b c v]"

definition upd4 :: "ten4 \<Rightarrow> nat \<Rightarrow> nat \<Rightarrow> nat \<Rightarrow> nat \<Rightarrow> real \<Rightarrow> ten4" where
  "upd4 T a b c d v = T[a := upd3 (T ! a) b c d v]"

text \<open>The fields of the \<open>j\<close>-th mode, \<open>Mode2Field(Modes[:, j])\<close>.\<close>

definition mode_fields :: "CustomedEqs \<Rightarrow> nat \<Rightarrow> mat \<times> mat \<times> mat" where
  "mode_fields ro j = Mode2Field ro (column (Modes ro) j)"

text \<open>\<open>(Interior * (a * b * c)).sum()\<close> and \<open>(Interior * (a * b)).sum()\<close>.\<close>

definition isum3 :: "CustomedEqs \<Rightarrow> mat \<Rightarrow> mat \<Rightarrow> mat \<Rightarrow> real" where
  "isum3 ro a b c = gsum (gmul (Interior ro) (gmul (gmul a b) c))"

definition isum33 :: "CustomedEqs \<Rightarrow> mat \<Rightarrow> mat \<Rightarrow> mat \<Rightarrow> mat \<Rightarrow> mat \<Rightarrow> mat \<Rightarrow> real" where
  "isum33 ro a b c d e f =
     gsum (gmul (Interior ro) (gadd (gmul (gmul a b) c) (gmul (gmul d e) f)))"

definition isum22 :: "CustomedEqs \<Rightarrow> mat \<Rightarrow> mat \<Rightarrow> mat \<Rightarrow> mat \<Rightarrow> real" where
  "isum22 ro a b c d = gsum (gmul (Interior ro) (gadd (gmul a b) (gmul c d)))"

definition isum2 :: "CustomedEqs \<Rightarrow> mat \<Rightarrow> mat \<Rightarrow> real" where
  "isum2 ro a b = gsum (gmul (Interior ro) (gmul a b))"

text \<open>The body of the innermost loop of \<open>getA\<close>, for the loop indices \<open>j\<close>, \<open>k\<close>, \<open>i\<close>.\<close>

definition getA_body ::
  "CustomedEqs \<Rightarrow> nat \<Rightarrow> nat \<Rightarrow> nat \<Rightarrow> ten4 \<times> ten3 \<Rightarrow> ten4 \<times> ten3" where
  "getA_body ro j k i st =
     (let (uBCxc, uBCyc) = Compute_d_d1 ro (uBC ro);
          (pj, uj, vj) = mode_fields ro j;
          (ujxc, ujyc) = Compute_d_d1 ro uj;
          (vjxc, vjyc) = Compute_d_d1 ro vj;
          (pk, uk, vk) = mode_fields ro k;
          (pi_f, ui, vi) = mode_fields ro i;
          Aeqs0 = upd4 (fst st) 0 k i j (isum33 ro ui ujxc uk ui vjxc vk);
          Aeqs1 = upd4 Aeqs0 1 k i j (isum33 ro ui ujyc uk ui vjyc vk);
          Aeqs2 = upd4 Aeqs1 2 k i j (isum33 ro vi ujxc uk vi vjxc vk);
          Aeqs3 = upd4 Aeqs2 3 k i j (isum33 ro vi ujyc uk vi vjyc vk);
          Abc0 = upd3 (snd st) 0 k i (isum3 ro ui uBCxc uk);
          Abc1 = upd3 Abc0 1 k i (isum3 ro ui uBCyc uk);
          Abc2 = upd3 Abc1 2 k i (isum3 ro vi uBCxc uk);
          Abc3 = upd3 Abc2 3 k i (isum3 ro vi uBCyc uk)
      in (Aeqs3, Abc3))"

definition getA :: "CustomedEqs \<Rightarrow> ten4 \<times> ten3" where
  "getA ro =
     fold (\<lambda>j. fold (\<lambda>k. fold (\<lambda>i. getA_body ro j k i) [0 ..< M ro]) [0 ..< M ro])
          [0 ..< M ro]
          (zeros4 4 (M ro) (M ro) (M ro), zeros3 4 (M ro) (M ro))"

text \<open>The body of the inner loop of \<open>getB\<close>, for the loop indices \<open>j\<close>, \<open>i\<close>.\<close>

definition getB_body ::
  "CustomedEqs \<Rightarrow> nat \<Rightarrow> nat \<Rightarrow> ten3 \<times> mat \<Rightarrow> ten3 \<times> mat" where
  "getB_body ro j i st =
     (let (uBCxc, uBCyc) = Compute_d_d1 ro (uBC ro);
          (uBCxc2, uBCyc2, uBCxcyc) = Compute_d_d2 ro (uBC ro);
          (pj, uj, vj) = mode_fields ro j;
          (ujxc, ujyc) = Compute_d_d1 ro uj;
          (vjxc, vjyc) = Compute_d_d1 ro vj;
          (pjxc, pjyc) = Compute_d_d1p ro pj;
          (ujxc2, ujyc2, ujxcyc) = Compute_d_d2 ro uj;
          (vjxc2, vjyc2, vjxcyc) = Compute_d_d2 ro vj;
          (pi_f, ui, vi) = mode_fields ro i;
          Beqs0 = upd3 (fst st) 0 i j (isum22 ro ujxc pi_f pjxc ui);
          Beqs1 = upd3 Beqs0 1 i j (isum22 ro ujyc pi_f pjyc ui);
          Beqs2 = upd3 Beqs1 2 i j (isum22 ro vjxc pi_f pjxc vi);
          Beqs3 = upd3 Beqs2 3 i j (isum22 ro vjyc pi_f pjyc vi);
          Beqs4 = upd3 Beqs3 4 i j (- isum22 ro ujxc2 ui vjxc2 vi);
          Beqs5 = upd3 Beqs4 5 i j (- isum22 ro ujyc2 ui vjyc2 vi);
          Beqs6 = upd3 Beqs5 6 i j (- isum22 ro ujxcyc ui vjxcyc vi);
          Bbc0 = upd2 (snd st) 0 i (isum2 ro uBCxc pi_f);
          Bbc1 = upd2 Bbc0 1 i (isum2 ro uBCyc pi_f);
          Bbc2 = upd2 Bbc1 2 i (gsum (gmul (Interior ro) (gscale 0 pi_f)));
          Bbc3 = upd2 Bbc2 3 i (gsum (gmul (Interior ro) (gscale 0 pi_f)));
          Bbc4 = upd2 Bbc3 4 i (- isum2 ro uBCxc2 ui);
          Bbc5 = upd2 Bbc4 5 i (- isum2 ro uBCyc2 ui);
          Bbc6 = upd2 Bbc5 6 i (- isum2 ro uBCxcyc ui)
      in (Beqs6, Bbc6))"

definition getB :: "CustomedEqs \<Rightarrow> ten3 \<times> mat" where
  "getB ro =
     fold (\<lambda>j. fold (\<lambda>i. getB_body ro j i) [0 ..< M ro]) [0 ..< M ro]
          (zeros3 7 (M ro) (M ro), zeros2 (7, M ro))"

definition Aeqs :: "CustomedEqs \<Rightarrow> ten4" where
  "Aeqs ro = fst (getA ro)"

definition Abc :: "CustomedEqs \<Rightarrow> ten3" where
  "Abc ro = snd (getA ro)"

definition Beqs :: "CustomedEqs \<Rightarrow> ten3" where
  "Beqs ro = fst (getB ro)"

definition Bbc :: "CustomedEqs \<Rightarrow> mat" where
  "Bbc ro = snd (getB ro)"

text \<open>Shapes of nested lists.\<close>

definition has_shape2 :: "nat \<Rightarrow> nat \<Rightarrow> 'a list list \<Rightarrow> bool" where
  "has_shape2 a b T \<longleftrightarrow> length T = a \<and> list_all (\<lambda>r. length r = b) T"

definition has_shape3 :: "nat \<Rightarrow> nat \<Rightarrow> nat \<Rightarrow> 'a list list list \<Rightarrow> bool" where
  "has_shape3 a b c T \<longleftrightarrow> length T = a \<and> list_all (has_shape2 b c) T"

definition has_shape4 :: "nat \<Rightarrow> nat \<Rightarrow> nat \<Rightarrow> nat \<Rightarrow> 'a list list list list \<Rightarrow> bool" where
  "has_shape4 a b c d T \<longleftrightarrow> length T = a \<and> list_all (has_shape3 b c d) T"

subsection \<open>The coordinate map: getJac, getGrid, getABCoef\<close>

text \<open>\<open>alpha[:, a:b]\<close>, and \<open>cat(..., axis=1)\<close>.\<close>

definition cols :: "nat \<Rightarrow> nat \<Rightarrow> 'a list list \<Rightarrow> 'a list list" where
  "cols a b A = map (\<lambda>r. take (b - a) (drop a r)) A"

fun cat1 :: "mat list \<Rightarrow> mat" where
  "cat1 [] = []"
| "cat1 [A] = A"
| "cat1 (A # As) = map2 (@) A (cat1 As)"

definition Theta_of :: "mat \<Rightarrow> mat" where
  "Theta_of alpha = map (map (\<lambda>a. a / 180 * 3.14159265359)) (cols 1 2 alpha)"

text \<open>The trigonometric functions are arguments of the source function (NumPy's by
  default, the network's inside the loss).  Where the divisor \<open>sin(Theta)\<close> is zero,
  NumPy's division gives an infinity or a NaN and a warning; HOL's division gives 0, so
  the model agrees with the code on the rows whose divisor is not zero.\<close>

definition getJac ::
  "(real \<Rightarrow> real) \<Rightarrow> (real \<Rightarrow> real) \<Rightarrow> mat \<Rightarrow> mat \<times> mat \<times> mat \<times> mat" where
  "getJac cosf sinf alpha =
     (let Theta = Theta_of alpha; xCoef = 1 / 2; yCoef = 1 / 2;
          Jac11 = map (map (\<lambda>t. 1 / xCoef * (t * 0 + 1))) Theta;
          Jac12 = map (map (\<lambda>t. 0 * t)) Theta;
          Jac21 = map (map (\<lambda>t. - cosf t / sinf t / xCoef)) Theta;
          Jac22 = map (map (\<lambda>t. 1 / yCoef / sinf t)) Theta
      in (Jac11, Jac12, Jac21, Jac22))"

text \<open>\<open>getGrid\<close> is called with a single parameter row, so \<open>Theta\<close> is a \<open>(1, 1)\<close>
  array that broadcasts over the grid.\<close>

definition getGrid ::
  "(real \<Rightarrow> real) \<Rightarrow> (real \<Rightarrow> real) \<Rightarrow> CustomedEqs \<Rightarrow> mat \<Rightarrow> mat \<times> mat" where
  "getGrid cosf sinf ro alpha =
     (let xc = grid_xc ro; yc = grid_yc ro; xCoef = 1 / 2; yCoef = 1 / 2;
          Theta = Theta_of alpha ! 0 ! 0;
          xp = gadd (gscale xCoef xc) (map (map (\<lambda>y. y * yCoef * cosf Theta)) yc);
          yp = map (map (\<lambda>y. y * yCoef * sinf Theta)) yc
      in (xp, yp))"

definition gsq :: "mat \<Rightarrow> mat" where
  "gsq A = map (map (\<lambda>x. x ^ 2)) A"

definition getABCoef ::
  "(real \<Rightarrow> real) \<Rightarrow> (real \<Rightarrow> real) \<Rightarrow> mat \<Rightarrow> mat \<times> mat" where
  "getABCoef cosf sinf alpha =
     (let v = map (map (\<lambda>r. 1 / r)) (cols 0 1 alpha);
          (Jac11, Jac12, Jac21, Jac22) = getJac cosf sinf alpha;
          Acoef = cat1 [Jac11, Jac12, Jac21, Jac22];
          BCoef = cat1 [Jac11, Jac12, Jac21, Jac22,
                        gmul v (gadd (gsq Jac11) (gsq Jac21)),
                        gmul v (gadd (gsq Jac12) (gsq Jac22)),
                        gmul (gscale 2 v) (gadd (gmul Jac11 Jac12) (gmul Jac21 Jac22))]
      in (Acoef, BCoef))"

subsection \<open>The Galerkin solver: POD_Gfsolve\<close>

datatype error = Exception string | ValueError

definition Newton_eps :: real where
  "Newton_eps = 1 / 10 ^ 6"

text \<open>\<open>(c[:, None, None, None] * T).sum(axis=0)\<close> and its lower-rank siblings: the
  coefficient vector weights the slices of the tensor along its first axis; \<open>m\<close> is the
  length of the remaining axes.\<close>

definition contract4 :: "vec \<Rightarrow> ten4 \<Rightarrow> nat \<Rightarrow> ten3" where
  "contract4 c T m =
     map (\<lambda>k. map (\<lambda>i. map (\<lambda>j. (\<Sum>t\<leftarrow>[0 ..< length T]. c ! t * T ! t ! k ! i ! j))
       [0 ..< m]) [0 ..< m]) [0 ..< m]"

definition contract3 :: "vec \<Rightarrow> ten3 \<Rightarrow> nat \<Rightarrow> mat" where
  "contract3 c T m =
     map (\<lambda>i. map (\<lambda>j. (\<Sum>t\<leftarrow>[0 ..< length T]. c ! t * T ! t ! i ! j)) [0 ..< m]) [0 ..< m]"

definition contract2 :: "vec \<Rightarrow> mat \<Rightarrow> nat \<Rightarrow> vec" where
  "contract2 c T m = map (\<lambda>i. (\<Sum>t\<leftarrow>[0 ..< length T]. c ! t * T ! t ! i)) [0 ..< m]"

definition matvec :: "mat \<Rightarrow> vec \<Rightarrow> vec" where
  "matvec B v = map (\<lambda>r. dot r v) B"

text \<open>\<open>compute_eAe(A, e)\<close>: for each slice \<open>A[k]\<close> the row vector \<open>e.T A[k]\<close>, then its
  product with \<open>e\<close>.\<close>

definition compute_eAe :: "ten3 \<Rightarrow> vec \<Rightarrow> vec" where
  "compute_eAe A e = map (\<lambda>Ak. dot (map (dot e) (transpose Ak)) e) A"

definition vadd :: "vec \<Rightarrow> vec \<Rightarrow> vec" where
  "vadd a b = map2 (+) a b"

definition vsub :: "vec \<Rightarrow> vec \<Rightarrow> vec" where
  "vsub a b = map2 (-) a b"

definition vmul :: "vec \<Rightarrow> vec \<Rightarrow> vec" where
  "vmul a b = map2 (*) a b"

definition vdiv :: "vec \<Rightarrow> vec \<Rightarrow> vec" where
  "vdiv a b = map2 (/) a b"

text \<open>\<open>np.linalg.norm\<close> of a vector.\<close>

definition norm2 :: "vec \<Rightarrow> real" where
  "norm2 v = sqrt (\<Sum>x\<leftarrow>v. x ^ 2)"

text \<open>The residual \<open>eqs(x, A, B, source)\<close> of the normalised unknown \<open>x\<close>.\<close>

definition eqs :: "CustomedEqs \<Rightarrow> vec \<Rightarrow> ten3 \<Rightarrow> mat \<Rightarrow> vec \<Rightarrow> vec" where
  "eqs ro x A B source =
     (let lamda = vadd (vmul x (proj_std ro)) (proj_mean ro)
      in vsub (vadd (compute_eAe A lamda) (matvec B lamda)) source)"

text \<open>The system of case \<open>i\<close>: \<open>alphai = alpha[i:i+1, 0:2]\<close>, the squeezed coefficient
  rows, and \<open>Ai\<close>, \<open>Bi\<close>, \<open>sourcei\<close>.\<close>

definition alphai_of :: "mat \<Rightarrow> nat \<Rightarrow> mat" where
  "alphai_of alpha i = cols 0 2 (take 1 (drop i alpha))"

definition system_of :: "CustomedEqs \<Rightarrow> mat \<Rightarrow> ten3 \<times> mat \<times> vec" where
  "system_of ro alphai =
     (let (AiCoeff2, BiCoeff2) = getABCoef cos sin alphai;
          AiCoeff = AiCoeff2 ! 0; BiCoeff = BiCoeff2 ! 0;
          Ai = contract4 AiCoeff (Aeqs ro) (M ro);
          Bi = gadd (contract3 AiCoeff (Abc ro) (M ro)) (contract3 BiCoeff (Beqs ro) (M ro));
          sourcei = map uminus (contract2 BiCoeff (Bbc ro) (M ro))
      in (Ai, Bi, sourcei))"

text \<open>The nearest training sample: \<open>dis\<close> is the list of scaled distances, \<open>ind\<close> the
  first index at which \<open>dis\<close> equals its minimum.\<close>

definition nn_dis :: "CustomedEqs \<Rightarrow> mat \<Rightarrow> vec" where
  "nn_dis ro alphai =
     (let extent = vsub (design_space ro ! 1) (design_space ro ! 0)
      in map (\<lambda>p. norm2 (vdiv (vsub (alphai ! 0) p) extent)) (parameters ro))"

definition first_index :: "'a list \<Rightarrow> 'a \<Rightarrow> nat" where
  "first_index xs m = length (takeWhile (\<lambda>x. x \<noteq> m) xs)"

definition nn_ind :: "CustomedEqs \<Rightarrow> mat \<Rightarrow> nat" where
  "nn_ind ro alphai = (let dis = nn_dis ro alphai in first_index dis (min_list dis))"

text \<open>The initial guess \<open>lamda0\<close> before normalisation.  \<open>dis.min()\<close> raises
  \<open>ValueError\<close> on an empty training set; a supplied \<open>lamda_init\<close> with too few rows
  gives an empty slice \<open>lamda_init[i:i+1, :]\<close>, on which the residual raises
  \<open>ValueError\<close> for its mismatched shapes.\<close>

definition lamda0_of :: "CustomedEqs \<Rightarrow> mat \<Rightarrow> mat option \<Rightarrow> nat \<Rightarrow> error + vec" where
  "lamda0_of ro alpha lamda_init i =
     (case lamda_init of
        None \<Rightarrow>
          if parameters ro = [] then Inl ValueError
          else Inr (map (\<lambda>r. r ! nn_ind ro (alphai_of alpha i)) (take (M ro) (projections ro)))
      | Some L \<Rightarrow> if i < length L then Inr (L ! i) else Inl ValueError)"

text \<open>A diagnostic line: the case number, the two parameters and the error reached.\<close>

type_synonym diag = "nat \<times> real \<times> real \<times> real"

text \<open>One pass of the loop body.  The root finder \<open>fsolve\<close> is the external
  collaborator: it takes the residual function and the start vector and returns a
  vector.\<close>

definition POD_Gfsolve_case ::
  "((vec \<Rightarrow> vec) \<Rightarrow> vec \<Rightarrow> vec) \<Rightarrow> CustomedEqs \<Rightarrow> mat \<Rightarrow> mat option \<Rightarrow> nat
     \<Rightarrow> error + (vec \<times> diag list)" where
  "POD_Gfsolve_case fsolve ro alpha lamda_init i =
     (let alphai = alphai_of alpha i;
          (Ai, Bi, sourcei) = system_of ro alphai
      in case lamda0_of ro alpha lamda_init i of
           Inl e \<Rightarrow> Inl e
         | Inr lamda0 \<Rightarrow>
             let lamda0n = vdiv (vsub lamda0 (proj_mean ro)) (proj_std ro);
                 lamdasol = fsolve (\<lambda>x. eqs ro x Ai Bi sourcei) lamda0n;
                 err = norm2 (eqs ro lamdasol Ai Bi sourcei);
                 out = (if err > Newton_eps
                        then [(i, alphai ! 0 ! 0, alphai ! 0 ! 1, err)] else [])
             in Inr (vadd (vmul lamdasol (proj_std ro)) (proj_mean ro), out))"

fun POD_Gfsolve_loop ::
  "((vec \<Rightarrow> vec) \<Rightarrow> vec \<Rightarrow> vec) \<Rightarrow> CustomedEqs \<Rightarrow> mat \<Rightarrow> mat option \<Rightarrow> nat list
     \<Rightarrow> mat \<times> diag list \<Rightarrow> error + (mat \<times> diag list)" where
  "POD_Gfsolve_loop fsolve ro alpha lamda_init [] st = Inr st"
| "POD_Gfsolve_loop fsolve ro alpha lamda_init (i # is) st =
     (case POD_Gfsolve_case fsolve ro alpha lamda_init i of
        Inl e \<Rightarrow> Inl e
      | Inr (row, out) \<Rightarrow>
          POD_Gfsolve_loop fsolve ro alpha lamda_init is ((fst st)[i := row], snd st @ out))"

text \<open>\<open>POD_Gfsolve\<close> returns the array \<open>lamda\<close>; the second component is what it
  printed.\<close>

definition POD_Gfsolve ::
  "((vec \<Rightarrow> vec) \<Rightarrow> vec \<Rightarrow> vec) \<Rightarrow> CustomedEqs \<Rightarrow> mat \<Rightarrow> mat option
     \<Rightarrow> error + (mat \<times> diag list)" where
  "POD_Gfsolve fsolve ro alpha lamda_init =
     POD_Gfsolve_loop fsolve ro alpha lamda_init [0 ..< length alpha]
       (zeros2 (length alpha, M ro), [])"

subsection \<open>The residual inside the network loss: loss_Eqs\<close>

text \<open>The batched residual \<open>fx\<close> of \<open>loss_Eqs\<close>, whose loss is
  \<open>lossfun(weight * fx, 0)\<close>; the loss function belongs to the network base class.\<close>

definition loss_Eqs_fx :: "CustomedEqs \<Rightarrow> mat \<Rightarrow> mat \<Rightarrow> mat" where
  "loss_Eqs_fx ro x lamda =
     (let (ACoeff, BCoeff) = getABCoef cos sin x;
          A = map (\<lambda>c. contract4 c (Aeqs ro) (M ro)) ACoeff;
          B = map2 (\<lambda>ca cb. gadd (contract3 ca (Abc ro) (M ro)) (contract3 cb (Beqs ro) (M ro)))
                ACoeff BCoeff;
          source = map (\<lambda>cb. map uminus (contract2 cb (Bbc ro) (M ro))) BCoeff;
          fx1 = map2 (\<lambda>l Ab. map (\<lambda>Ak. map (dot l) (transpose Ak)) Ab) lamda A;
          fx2 = map2 (\<lambda>f l. map (\<lambda>r. dot r l) f) fx1 lamda
      in map2 vsub (map2 vadd fx2 (map2 matvec B lamda)) source)"

definition loss_Eqs ::
  "(mat \<Rightarrow> mat \<Rightarrow> real) \<Rightarrow> CustomedEqs \<Rightarrow> mat \<Rightarrow> mat \<Rightarrow> real \<Rightarrow> real" where
  "loss_Eqs lossfun ro x lamda weight =
     (let fx = loss_Eqs_fx ro x lamda
      in lossfun (gscale weight fx) (map (map (\<lambda>_. 0)) fx))"

subsection \<open>GetError\<close>

definition mean :: "vec \<Rightarrow> real" where
  "mean xs = sum_list xs / real (length xs)"

text \<open>The relative error of the variable \<open>nvar\<close> (every third entry of a row, from
  \<open>nvar\<close>) for each validation case, and the total relative error for each case.\<close>

definition Error_col :: "mat \<Rightarrow> mat \<Rightarrow> nat \<Rightarrow> vec" where
  "Error_col phi_Num phi_pred nvar =
     map2 (\<lambda>pn pp. norm2 (vsub (slice_step nvar NVAR pn) (slice_step nvar NVAR pp))
                     / norm2 (slice_step nvar NVAR pn))
          phi_Num phi_pred"

definition Error_rows :: "mat \<Rightarrow> mat \<Rightarrow> vec" where
  "Error_rows phi_Num phi_pred = map2 (\<lambda>pn pp. norm2 (vsub pn pp) / norm2 pn) phi_Num phi_pred"

text \<open>
  The result of \<open>GetError\<close> is the exception raised or the pair it returns; the second
  component is the list of lines printed (the per-case total errors, then the three
  mean errors with the mean total error).  \<open>np.matmul(lamda, Modes.T)\<close> raises
  \<open>ValueError\<close> unless every row of \<open>lamda\<close> has as many entries as \<open>Modes\<close> has
  columns.  The embedding is a function of the object and the batch and returns no
  object: the source assigns no attribute in \<open>GetError\<close>.
\<close>

definition GetError :: "CustomedEqs \<Rightarrow> mat \<Rightarrow> (error + vec \<times> real) \<times> vec list" where
  "GetError ro lamda =
     (let Nvalidation = length (ValidationParameters ro)
      in if Nvalidation \<noteq> length lamda
         then (Inl (Exception ''The number of lamda should be equal to validation parameters''), [])
         else if \<not> list_all (\<lambda>r. length r = length (transpose (Modes ro))) lamda
         then (Inl ValueError, [])
         else
           let phi_pred = matmul lamda (transpose (Modes ro));
               phi_Num = transpose (ValidationSamples ro);
               Errorpuv = map (\<lambda>nvar. mean (Error_col phi_Num phi_pred nvar)) [0 ..< NVAR];
               Errortotal = Error_rows phi_Num phi_pred
           in (Inr (Errorpuv, mean Errortotal),
               [Errortotal, Errorpuv @ [mean Errortotal]]))"

subsection \<open>GetPredFields\<close>

definition gtimes :: "mat \<Rightarrow> real \<Rightarrow> mat" where
  "gtimes A c = map (map (\<lambda>x. x * c)) A"

text \<open>\<open>np.abs(A).max()\<close> (NumPy raises on an empty array).\<close>

definition gmaxabs :: "mat \<Rightarrow> real" where
  "gmaxabs A = fold max (map abs (concat A)) 0"

text \<open>The increment field \<open>dpsi\<close> of one relaxation step, for the Jacobian entries of
  the case, the vorticity \<open>omegai\<close> and the current \<open>psii\<close>.\<close>

definition dpsi_of :: "CustomedEqs \<Rightarrow> real \<times> real \<times> real \<times> real \<Rightarrow> mat \<Rightarrow> mat \<Rightarrow> mat" where
  "dpsi_of ro J omegai psii =
     (let (J11, J12, J21, J22) = J;
          (psi_xc2, psi_yc2, psi_xcyc) = Compute_d_d2 ro psii;
          dpsi = gsub (gadd (gadd (gtimes psi_xc2 (J11 ^ 2 + J21 ^ 2))
                                  (gtimes psi_yc2 (J12 ^ 2 + J22 ^ 2)))
                            (gtimes psi_xcyc (2 * J11 * J12 + 2 * J21 * J22)))
                      omegai
      in gmul dpsi (Interior ro))"

text \<open>
  The loop \<open>for it in range(...)\<close>: the first argument counts the iterations left,
  \<open>it\<close> is the loop variable, and the state is \<open>psii\<close> with the progress lines printed
  so far (\<open>it\<close> and the largest \<open>|dpsi|\<close>, every 10000 iterations).
\<close>

type_synonym progress = "nat \<times> real"

fun psi_loop ::
  "CustomedEqs \<Rightarrow> real \<times> real \<times> real \<times> real \<Rightarrow> mat \<Rightarrow> real \<Rightarrow> nat \<Rightarrow> nat
     \<Rightarrow> mat \<times> progress list \<Rightarrow> mat \<times> progress list" where
  "psi_loop ro J omegai dt 0 it st = st"
| "psi_loop ro J omegai dt (Suc n) it st =
     (let dpsi = dpsi_of ro J omegai (fst st);
          psii = gadd (fst st) (gtimes dpsi dt);
          out = (if it mod 10000 = 0 then snd st @ [(it, gmaxabs dpsi)] else snd st)
      in if gmaxabs dpsi < 1 / 10 ^ 8 then (psii, out)
         else psi_loop ro J omegai dt n (Suc it) (psii, out))"

definition psi_budget :: nat where
  "psi_budget = 100000000"

text \<open>The seven grids of one case, in the order of the output columns, and the progress
  lines printed while solving for the stream function.\<close>

record case_fields =
  f_xp :: mat
  f_yp :: mat
  f_P :: mat
  f_u :: mat
  f_v :: mat
  f_omega :: mat
  f_psi :: mat

definition GetPredFields_case ::
  "CustomedEqs \<Rightarrow> mat \<Rightarrow> mat \<Rightarrow> nat \<Rightarrow> case_fields \<times> progress list" where
  "GetPredFields_case ro alpha lamda icase =
     (let phi_pred = matmul lamda (transpose (Modes ro));
          (J11, J12, J21, J22) = getJac cos sin alpha;
          alphai = take 1 (drop icase alpha);
          (pi_f, ui0, vi) = Mode2Field ro (phi_pred ! icase);
          ui = gadd ui0 (uBC ro);
          (ui_xc, ui_yc) = Compute_d_d1 ro ui;
          (vi_xc, vi_yc) = Compute_d_d1 ro vi;
          (xp, yp) = getGrid cos sin ro alphai;
          hx = \<bar>xp ! 0 ! 0 - xp ! 1 ! 0\<bar>;
          hy = \<bar>yp ! 0 ! 0 - yp ! 0 ! 1\<bar>;
          J = (J11 ! icase ! 0, J12 ! icase ! 0, J21 ! icase ! 0, J22 ! icase ! 0);
          omegai = gsub (gsub (gadd (gtimes ui_xc (J21 ! icase ! 0)) (gtimes ui_yc (J22 ! icase ! 0)))
                              (gtimes vi_xc (J11 ! icase ! 0)))
                        (gtimes vi_yc (J12 ! icase ! 0));
          dt = 0.5 * (min hx hy) ^ 2;
          (psii, out) = psi_loop ro J omegai dt psi_budget 0 (gscale 0 omegai, [])
      in (\<lparr> f_xp = xp, f_yp = yp, f_P = pi_f, f_u = ui, f_v = vi, f_omega = omegai, f_psi = psii \<rparr>,
          out))"

text \<open>\<open>GetPredFields\<close> returns the stacked fields of all cases; the files it writes hold
  the same seven grids.\<close>

definition GetPredFields :: "CustomedEqs \<Rightarrow> mat \<Rightarrow> mat \<Rightarrow> (case_fields \<times> progress list) list" where
  "GetPredFields ro alpha lamda = map (GetPredFields_case ro alpha lamda) [0 ..< length lamda]"

section \<open>Auxiliary notions and a small model\<close>

text \<open>The snapshot matrix has one row per grid point and loaded variable; otherwise
  the reshape that builds \<open>uBC\<close> raises in \<open>__init__\<close>.\<close>

definition wf_samples :: "CustomedEqs \<Rightarrow> bool" where
  "wf_samples ro \<longleftrightarrow>
     length (Samples ro) = fst (FieldShape ro) * snd (FieldShape ro) * NVARLOAD"

text \<open>The loop invariants of \<open>getA\<close> and \<open>getB\<close>: the shapes of the two arrays.\<close>

definition A_shaped :: "nat \<Rightarrow> ten4 \<times> ten3 \<Rightarrow> bool" where
  "A_shaped m st \<longleftrightarrow> has_shape4 4 m m m (fst st) \<and> has_shape3 4 m m (snd st)"

definition B_shaped :: "nat \<Rightarrow> ten3 \<times> mat \<Rightarrow> bool" where
  "B_shaped m st \<longleftrightarrow> has_shape3 7 m m (fst st) \<and> has_shape2 7 m (snd st)"

text \<open>Two objects agree on everything \<open>getA\<close> and \<open>getB\<close> read.\<close>

definition same_model :: "CustomedEqs \<Rightarrow> CustomedEqs \<Rightarrow> bool" where
  "same_model r1 r2 \<longleftrightarrow>
     Samples r1 = Samples r2 \<and> FieldShape r1 = FieldShape r2 \<and> Modes r1 = Modes r2 \<and>
     M r1 = M r2 \<and> dx r1 = dx r2 \<and> dy r1 = dy r2 \<and> dxp r1 = dxp r2 \<and> dyp r1 = dyp r2"

text \<open>
  A cavity on the 3 by 3 Chebyshev grid with one snapshot and one mode: the lid (last
  column) moves with velocity 1, the single interior point has pressure 0 and velocity
  (3/5, 4/5).  \<open>cheb2\<close> is the Chebyshev differentiation matrix on the nodes 1, 0, -1.
\<close>

definition lid_sample :: mat where
  "lid_sample = map (\<lambda>r. [r])
     [0, 0, 0, 0, 0, 0,   0, 0, 0, 0, 0, 0,       0, 1, 0, 0, 0, 0,
      0, 0, 0, 0, 0, 0,   0, 3 / 5, 4 / 5, 0, 0, 0,   0, 1, 0, 0, 0, 0,
      0, 0, 0, 0, 0, 0,   0, 0, 0, 0, 0, 0,       0, 1, 0, 0, 0, 0]"

definition cheb2 :: mat where
  "cheb2 = [[3 / 2, - 2, 1 / 2], [1 / 2, 0, - 1 / 2], [- 1 / 2, 2, - 3 / 2]]"

definition lid_model :: CustomedEqs where
  "lid_model = \<lparr> Samples = lid_sample, FieldShape = (3, 3), parameters = [[200, 90]],
     design_space = [[100, 60], [500, 120]], ValidationParameters = [[200, 90]],
     ValidationSamples = [[0], [3 / 5], [4 / 5]], Modes = [[0], [3 / 5], [4 / 5]], M = 1,
     dx = cheb2, dy = cheb2, dxp = cheb2, dyp = cheb2,
     grid_xc = [[1, 1, 1], [0, 0, 0], [- 1, - 1, - 1]],
     grid_yc = [[1, 0, - 1], [1, 0, - 1], [1, 0, - 1]],
     projections = [[1]], proj_mean = [1], proj_std = [1] \<rparr>"

text \<open>The loop invariant of \<open>getB\<close> for the two slots of \<open>Bbc\<close> that receive
  \<open>(Interior * (0 * pi)).sum()\<close>.\<close>

definition Bbc_zero :: "nat \<Rightarrow> ten3 \<times> mat \<Rightarrow> bool" where
  "Bbc_zero m st \<longleftrightarrow>
     length (snd st) = 7 \<and> snd st ! 2 = replicate m 0 \<and> snd st ! 3 = replicate m 0"

text \<open>The four assignments to \<open>Abc\<close> in the body of \<open>getA\<close>, with the value written to
  slot \<open>t\<close> at \<open>(k, i)\<close> given by \<open>g t k i\<close>; an array is filled by \<open>g\<close> when every
  entry holds the value \<open>g\<close> gives for its index.\<close>

definition fill_step ::
  "(nat \<Rightarrow> nat \<Rightarrow> nat \<Rightarrow> real) \<Rightarrow> nat \<Rightarrow> nat \<Rightarrow> ten3 \<Rightarrow> ten3" where
  "fill_step g k i T =
     upd3 (upd3 (upd3 (upd3 T 0 k i (g 0 k i)) 1 k i (g 1 k i)) 2 k i (g 2 k i)) 3 k i (g 3 k i)"

definition filled :: "nat \<Rightarrow> (nat \<Rightarrow> nat \<Rightarrow> nat \<Rightarrow> real) \<Rightarrow> ten3 \<Rightarrow> bool" where
  "filled m g T \<longleftrightarrow>
     has_shape3 4 m m T \<and> (\<forall>t<4. \<forall>k<m. \<forall>i<m. T ! t ! k ! i = g t k i)"

text \<open>The value \<open>getA\<close> assigns to \<open>Abc[t, k, i]\<close> (lines 167 to 170 of the source).\<close>

definition Abc_entry :: "CustomedEqs \<Rightarrow> nat \<Rightarrow> nat \<Rightarrow> nat \<Rightarrow> real" where
  "Abc_entry ro t k i =
     (let (uBCxc, uBCyc) = Compute_d_d1 ro (uBC ro);
          (pk, uk, vk) = mode_fields ro k;
          (pi_f, ui, vi) = mode_fields ro i
      in if t = 0 then isum3 ro ui uBCxc uk
         else if t = 1 then isum3 ro ui uBCyc uk
         else if t = 2 then isum3 ro vi uBCxc uk
         else isum3 ro vi uBCyc uk)"

text \<open>What \<open>getJac\<close> and \<open>getABCoef\<close> compute for one parameter row: every operation
  of the two functions acts row by row.\<close>

definition Jac_row :: "(real \<Rightarrow> real) \<Rightarrow> (real \<Rightarrow> real) \<Rightarrow> vec \<Rightarrow> vec \<times> vec \<times> vec \<times> vec" where
  "Jac_row cosf sinf r =
     (let Theta = map (\<lambda>a. a / 180 * 3.14159265359) (take 1 (drop 1 r))
      in (map (\<lambda>t. 1 / (1 / 2) * (t * 0 + 1)) Theta,
          map (\<lambda>t. 0 * t) Theta,
          map (\<lambda>t. - cosf t / sinf t / (1 / 2)) Theta,
          map (\<lambda>t. 1 / (1 / 2) / sinf t) Theta))"

definition ABCoef_row :: "(real \<Rightarrow> real) \<Rightarrow> (real \<Rightarrow> real) \<Rightarrow> vec \<Rightarrow> vec \<times> vec" where
  "ABCoef_row cosf sinf r =
     (let v = map (\<lambda>x. 1 / x) (take 1 r);
          (J11, J12, J21, J22) = Jac_row cosf sinf r
      in (J11 @ J12 @ J21 @ J22,
          J11 @ J12 @ J21 @ J22
            @ vmul v (vadd (map (\<lambda>x. x ^ 2) J11) (map (\<lambda>x. x ^ 2) J21))
            @ vmul v (vadd (map (\<lambda>x. x ^ 2) J12) (map (\<lambda>x. x ^ 2) J22))
            @ vmul (map ((*) 2) v) (vadd (vmul J11 J12) (vmul J21 J22))))"

text \<open>The solution the root finder returns for case \<open>i\<close> from the start vector
  \<open>lamda0\<close> (after normalising it), the residual norm reached there, the diagnostic
  line of the case, and the pair of case \<open>i\<close>: the row stored and the lines printed.\<close>

definition lamdasol_of ::
  "((vec \<Rightarrow> vec) \<Rightarrow> vec \<Rightarrow> vec) \<Rightarrow> CustomedEqs \<Rightarrow> mat \<Rightarrow> vec \<Rightarrow> nat \<Rightarrow> vec" where
  "lamdasol_of fsolve ro alpha lamda0 i =
     (let (Ai, Bi, sourcei) = system_of ro (alphai_of alpha i)
      in fsolve (\<lambda>x. eqs ro x Ai Bi sourcei) (vdiv (vsub lamda0 (proj_mean ro)) (proj_std ro)))"

definition err_of :: "CustomedEqs \<Rightarrow> mat \<Rightarrow> nat \<Rightarrow> vec \<Rightarrow> real" where
  "err_of ro alpha i lamdasol =
     (let (Ai, Bi, sourcei) = system_of ro (alphai_of alpha i)
      in norm2 (eqs ro lamdasol Ai Bi sourcei))"

definition diag_of :: "mat \<Rightarrow> nat \<Rightarrow> real \<Rightarrow> diag" where
  "diag_of alpha i err = (i, alphai_of alpha i ! 0 ! 0, alphai_of alpha i ! 0 ! 1, err)"

text \<open>The start vectors exist: a training set that is not empty, or a supplied
  \<open>lamda_init\<close> with a row for every query.\<close>

definition init_ok :: "CustomedEqs \<Rightarrow> mat \<Rightarrow> mat option \<Rightarrow> bool" where
  "init_ok ro alpha lamda_init =
     (case lamda_init of None \<Rightarrow> parameters ro \<noteq> [] | Some L \<Rightarrow> length alpha \<le> length L)"

definition case_result ::
  "((vec \<Rightarrow> vec) \<Rightarrow> vec \<Rightarrow> vec) \<Rightarrow> CustomedEqs \<Rightarrow> mat \<Rightarrow> vec \<Rightarrow> nat \<Rightarrow> vec \<times> diag list" where
  "case_result fsolve ro alpha lamda0 i =
     (let lamdasol = lamdasol_of fsolve ro alpha lamda0 i; err = err_of ro alpha i lamdasol
      in (vadd (vmul lamdasol (proj_std ro)) (proj_mean ro),
          if err > Newton_eps then [diag_of alpha i err] else []))"

definition case_of ::
  "((vec \<Rightarrow> vec) \<Rightarrow> vec \<Rightarrow> vec) \<Rightarrow> CustomedEqs \<Rightarrow> mat \<Rightarrow> mat option \<Rightarrow> nat \<Rightarrow> vec \<times> diag list" where
  "case_of fsolve ro alpha lamda_init i =
     case_result fsolve ro alpha (projr (lamda0_of ro alpha lamda_init i)) i"

text \<open>Following the spec's words: the Euclidean distance of two parameter rows after
  coordinate-wise division by the extents of the design-space box (upper minus lower
  bound).\<close>

definition scaled_distance :: "CustomedEqs \<Rightarrow> vec \<Rightarrow> vec \<Rightarrow> real" where
  "scaled_distance ro a p =
     sqrt (\<Sum>c<2. ((a ! c - p ! c) / (design_space ro ! 1 ! c - design_space ro ! 0 ! c))\<^sup>2)"

text \<open>The design space is a box of two coordinates with a lower bound below the upper
  bound in each, and the training set is a non-empty list of parameter pairs.\<close>

definition wf_design :: "CustomedEqs \<Rightarrow> bool" where
  "wf_design ro \<longleftrightarrow>
     length (design_space ro) = 2 \<and> length (design_space ro ! 0) = 2 \<and>
     length (design_space ro ! 1) = 2 \<and>
     design_space ro ! 0 ! 0 < design_space ro ! 1 ! 0 \<and>
     design_space ro ! 0 ! 1 < design_space ro ! 1 ! 1 \<and>
     parameters ro \<noteq> [] \<and> list_all (\<lambda>p. length p = 2) (parameters ro)"

text \<open>The small cavity with a second snapshot (twice the first) and two training
  parameter rows.\<close>

definition lid_model2 :: CustomedEqs where
  "lid_model2 = lid_model \<lparr> Samples := map (\<lambda>r. [hd r, 2 * hd r]) lid_sample,
     parameters := [[100, 60], [400, 110]], projections := [[1, 2]],
     proj_mean := [3 / 2], proj_std := [1 / 2] \<rparr>"

text \<open>The mode matrix has \<open>M\<close> columns (\<open>Modes[:, :M]\<close>) and at least one row.\<close>

definition wf_modes :: "CustomedEqs \<Rightarrow> bool" where
  "wf_modes ro \<longleftrightarrow> Modes ro \<noteq> [] \<and> list_all (\<lambda>r. length r = M ro) (Modes ro)"

definition count_mismatch :: error where
  "count_mismatch = Exception ''The number of lamda should be equal to validation parameters''"











text \<open>The term \<open>x^(2n+1) / (2n+1)\<close> of the arctangent series.\<close>

definition arctan_term :: "real \<Rightarrow> nat \<Rightarrow> real" where
  "arctan_term x n = 1 / real (n * 2 + 1) * x ^ (n * 2 + 1)"




text \<open>Rounding to the nearest multiple of \<open>2^-53\<close>, the spacing of the binary64 numbers
  between 1/2 and 1, and the two trigonometric functions rounded so.\<close>

definition round53 :: "real \<Rightarrow> real" where
  "round53 x = of_int (round (x * 2 ^ 53)) / 2 ^ 53"

definition sin53 :: "real \<Rightarrow> real" where
  "sin53 x = round53 (sin x)"

definition cos53 :: "real \<Rightarrow> real" where
  "cos53 x = round53 (cos x)"

text \<open>Following the spec's words: row \<open>k\<close> of the residual
  \<open>lamda^T A lamda + B lamda - source\<close>, with \<open>A\<close> the sum over the 4 slots of
  \<open>Acoef[t] * Aeqs[t]\<close>, \<open>B\<close> the sum of \<open>Acoef[t] * Abc[t]\<close> plus the sum over the 7
  slots of \<open>Bcoef[t] * Beqs[t]\<close>, and \<open>source\<close> minus the sum of \<open>Bcoef[t] * Bbc[t]\<close>.\<close>

definition residual_formula :: "CustomedEqs \<Rightarrow> vec \<Rightarrow> vec \<Rightarrow> vec \<Rightarrow> nat \<Rightarrow> real" where
  "residual_formula ro Acoef Bcoef lamda k =
     (\<Sum>i<M ro. \<Sum>j<M ro. lamda ! i * (\<Sum>t<4. Acoef ! t * Aeqs ro ! t ! k ! i ! j) * lamda ! j)
     + (\<Sum>j<M ro. ((\<Sum>t<4. Acoef ! t * Abc ro ! t ! k ! j)
                    + (\<Sum>t<7. Bcoef ! t * Beqs ro ! t ! k ! j)) * lamda ! j)
     - (- (\<Sum>t<7. Bcoef ! t * Bbc ro ! t ! k))"

section \<open>Facts about arrays\<close>

lemma length_zeros2 [simp]: "length (zeros2 s) = fst s"
  by (simp add: zeros2_def)

lemma nth_zeros2 [simp]: "i < fst s \<Longrightarrow> zeros2 s ! i = replicate (snd s) 0"
  by (simp add: zeros2_def zeros1_def)

lemma length_set_interior [simp]: "length (set_interior Z R) = length Z"
  by (simp add: set_interior_def)

lemma length_nth_set_interior [simp]:
  "i < length Z \<Longrightarrow> length (set_interior Z R ! i) = length (Z ! i)"
  by (simp add: set_interior_def)

lemma nth_set_interior:
  "i < length Z \<Longrightarrow> j < length (Z ! i) \<Longrightarrow>
   set_interior Z R ! i ! j =
     (if inner_index (length Z) i \<and> inner_index (length (Z ! i)) j
      then R ! (i - 1) ! (j - 1) else Z ! i ! j)"
  by (simp add: set_interior_def)

lemma on_boundary_not_inner:
  "on_boundary s i j \<Longrightarrow> \<not> (inner_index (fst s) i \<and> inner_index (snd s) j)"
  by (auto simp: on_boundary_def inner_index_def)

lemma set_interior_zeros_boundary:
  assumes "on_boundary s i j"
  shows "set_interior (zeros2 s) R ! i ! j = 0"
proof -
  from assms have i: "i < fst s" and j: "j < snd s"
    by (simp_all add: on_boundary_def)
  from on_boundary_not_inner [OF assms] i j show ?thesis
    by (auto simp: nth_set_interior)
qed

lemma fold_invariant:
  assumes "P s" and "\<And>x s. x \<in> set xs \<Longrightarrow> P s \<Longrightarrow> P (f x s)"
  shows "P (fold f xs s)"
  using assms by (induction xs arbitrary: s) auto

lemma length_slice_step_mult:
  assumes "0 < k" "a < k" "length xs = n * k"
  shows "length (slice_step a k xs) = n"
proof (cases n)
  case 0
  with assms show ?thesis by (simp add: slice_step_def)
next
  case (Suc m)
  have "k \<le> n * k" using Suc by simp
  with assms have "n * k - a + k - 1 = (k - 1 - a) + n * k" by linarith
  moreover have "k - 1 - a < k" using assms by simp
  ultimately have "(n * k - a + k - 1) div k = n"
    by (metis add.right_neutral div_less div_mult_self1 less_nat_zero_code not_gr_zero add.commute assms(1))
  then show ?thesis using assms by (simp add: slice_step_def)
qed

lemma length_reshape2_row:
  assumes "length xs = a * b" "i < a"
  shows "length (reshape2 xs (a, b) ! i) = b"
proof -
  have "i * b + b \<le> a * b"
    using assms(2) by (metis Suc_leI mult_Suc mult_le_mono1 add.commute)
  then show ?thesis using assms by (simp add: reshape2_def)
qed

lemma length_transpose_rect:
  assumes "xs \<noteq> []" "list_all (\<lambda>r. length r = m) xs"
  shows "length (transpose xs) = m"
proof -
  have "foldr (\<lambda>xs. max (length xs)) ys 0 = (if ys = [] then 0 else m)"
    if "list_all (\<lambda>r. length r = m) ys" for ys :: "'a list list"
    using that by (induction ys) (auto simp: max_def)
  with assms show ?thesis by (simp add: length_transpose)
qed

lemma has_shape2I:
  "length T = a \<Longrightarrow> (\<And>i. i < a \<Longrightarrow> length (T ! i) = b) \<Longrightarrow> has_shape2 a b T"
  by (simp add: has_shape2_def list_all_length)

lemma has_shape2D:
  assumes "has_shape2 a b T"
  shows "length T = a" "i < a \<Longrightarrow> length (T ! i) = b"
  using assms by (simp_all add: has_shape2_def list_all_length)

lemma has_shape2_transpose:
  assumes "has_shape2 a b A" "0 < a"
  shows "has_shape2 b a (transpose A)"
proof -
  from assms have ne: "A \<noteq> []" and rows: "list_all (\<lambda>r. length r = b) A"
    by (auto simp: has_shape2_def)
  have len: "length (transpose A) = b"
    using ne rows by (rule length_transpose_rect)
  have "length (transpose A ! i) = a" if "i < b" for i
  proof -
    have "filter (\<lambda>ys. i < length ys) A = A"
      using rows that by (auto simp: list_all_iff filter_id_conv)
    then show ?thesis
      using that len assms(1) by (simp add: nth_transpose has_shape2_def)
  qed
  with len show ?thesis by (intro has_shape2I) simp_all
qed

section \<open>Mode2Field and the boundary\<close>

lemma length_Interior [simp]: "length (Interior ro) = fst (FieldShape ro)"
  by (simp add: Interior_def)

lemma length_Interior_row [simp]:
  "i < fst (FieldShape ro) \<Longrightarrow> length (Interior ro ! i) = snd (FieldShape ro)"
  by (simp add: Interior_def)

lemma uBC_shape:
  assumes "wf_samples ro" "i < fst (FieldShape ro)"
  shows "length (uBC ro) = fst (FieldShape ro)" and "length (uBC ro ! i) = snd (FieldShape ro)"
proof -
  let ?s = "FieldShape ro"
  let ?xs = "slice_step 1 NVARLOAD (column (Samples ro) 0)"
  have len: "length ?xs = fst ?s * snd ?s"
    using assms(1)
    by (intro length_slice_step_mult) (simp_all add: wf_samples_def NVARLOAD_def column_def)
  have R: "length (reshape2 ?xs ?s) = fst ?s" by (simp add: reshape2_def)
  have Ri: "length (reshape2 ?xs ?s ! i) = snd ?s"
    using length_reshape2_row [OF len assms(2)] by simp
  show "length (uBC ro) = fst ?s" using R by (simp add: uBC_def gmul_def Boundary_def)
  show "length (uBC ro ! i) = snd ?s"
    using R Ri assms(2) by (simp add: uBC_def gmul_def Boundary_def)
qed

lemma Mode2Field_shape:
  "length (fst (Mode2Field ro Vec)) = fst (FieldShape ro)"
  "length (fst (snd (Mode2Field ro Vec))) = fst (FieldShape ro)"
  "length (snd (snd (Mode2Field ro Vec))) = fst (FieldShape ro)"
  "i < fst (FieldShape ro) \<Longrightarrow> length (fst (Mode2Field ro Vec) ! i) = snd (FieldShape ro)"
  "i < fst (FieldShape ro) \<Longrightarrow> length (fst (snd (Mode2Field ro Vec)) ! i) = snd (FieldShape ro)"
  "i < fst (FieldShape ro) \<Longrightarrow> length (snd (snd (Mode2Field ro Vec)) ! i) = snd (FieldShape ro)"
  by (simp_all add: Mode2Field_def)

lemma Mode2Field_boundary:
  assumes "on_boundary (FieldShape ro) i j"
  shows "fst (Mode2Field ro Vec) ! i ! j = 0"
    and "fst (snd (Mode2Field ro Vec)) ! i ! j = 0"
    and "snd (snd (Mode2Field ro Vec)) ! i ! j = 0"
  using assms by (simp_all add: Mode2Field_def set_interior_zeros_boundary)

lemma GetPredFields_case_fields:
  "f_P (fst (GetPredFields_case ro alpha lamda icase)) =
     fst (Mode2Field ro (matmul lamda (transpose (Modes ro)) ! icase))"
  "f_u (fst (GetPredFields_case ro alpha lamda icase)) =
     gadd (fst (snd (Mode2Field ro (matmul lamda (transpose (Modes ro)) ! icase)))) (uBC ro)"
  "f_v (fst (GetPredFields_case ro alpha lamda icase)) =
     snd (snd (Mode2Field ro (matmul lamda (transpose (Modes ro)) ! icase)))"
  by (simp_all add: GetPredFields_case_def Let_def split_beta)

text \<open>
  Claim C10.  For every coefficient vector the pressure, x-velocity and y-velocity grids
  returned by \<open>Mode2Field\<close> are exactly zero at every boundary grid point (first and
  last row and column).  Consequently, in the fields of every case of \<open>GetPredFields\<close>
  the pressure and the y-velocity are exactly zero on the boundary, and the x-velocity
  holds there the value of the boundary profile \<open>uBC\<close> that was added back.
\<close>

theorem boundary_values:
  assumes "wf_samples ro" and "on_boundary (FieldShape ro) i j"
  shows "fst (Mode2Field ro Vec) ! i ! j = 0
       \<and> fst (snd (Mode2Field ro Vec)) ! i ! j = 0
       \<and> snd (snd (Mode2Field ro Vec)) ! i ! j = 0
       \<and> (\<forall>icase < length lamda.
            f_P (fst (GetPredFields ro alpha lamda ! icase)) ! i ! j = 0
          \<and> f_v (fst (GetPredFields ro alpha lamda ! icase)) ! i ! j = 0
          \<and> f_u (fst (GetPredFields ro alpha lamda ! icase)) ! i ! j = uBC ro ! i ! j)"
proof -
  from assms(2) have i: "i < fst (FieldShape ro)" and j: "j < snd (FieldShape ro)"
    by (simp_all add: on_boundary_def)
  note mb = Mode2Field_boundary [OF assms(2)]
  have u: "gadd (fst (snd (Mode2Field ro V))) (uBC ro) ! i ! j = uBC ro ! i ! j" for V
    using i j uBC_shape [OF assms(1) i] mb(2) [of V]
    by (simp add: gadd_def Mode2Field_shape)
  show ?thesis
    using mb u by (simp add: GetPredFields_def GetPredFields_case_fields)
qed

lemma wf_samples_lid_model: "wf_samples lid_model"
  by (simp add: wf_samples_def lid_model_def lid_sample_def NVARLOAD_def)

lemma uBC_lid_model: "uBC lid_model = [[0, 0, 1], [0, 0, 1], [0, 0, 1]]"
  by code_simp

theorem boundary_values_witness:
  "wf_samples lid_model \<and> on_boundary (FieldShape lid_model) 1 2
   \<and> fst (Mode2Field lid_model [0, 3 / 5, 4 / 5]) ! 1 ! 2 = 0
   \<and> fst (snd (Mode2Field lid_model [0, 3 / 5, 4 / 5])) ! 1 ! 2 = 0
   \<and> snd (snd (Mode2Field lid_model [0, 3 / 5, 4 / 5])) ! 1 ! 2 = 0
   \<and> f_P (fst (GetPredFields lid_model [[200, 90]] [[1]] ! 0)) ! 1 ! 2 = 0
   \<and> f_v (fst (GetPredFields lid_model [[200, 90]] [[1]] ! 0)) ! 1 ! 2 = 0
   \<and> f_u (fst (GetPredFields lid_model [[200, 90]] [[1]] ! 0)) ! 1 ! 2 = 1"
proof -
  have b: "on_boundary (FieldShape lid_model) 1 2"
    by (simp add: on_boundary_def lid_model_def)
  from boundary_values [OF wf_samples_lid_model b, of "[0, 3 / 5, 4 / 5]" "[[1]]" "[[200, 90]]"]
  show ?thesis
    using wf_samples_lid_model b by (simp add: uBC_lid_model)
qed

section \<open>The reduced tensors\<close>

lemma has_shape2_upd2: "has_shape2 a b T \<Longrightarrow> has_shape2 a b (upd2 T x y v)"
  by (cases "x < length T")
     (auto simp: has_shape2_def upd2_def list_all_length nth_list_update)

lemma has_shape3_upd3: "has_shape3 a b c T \<Longrightarrow> has_shape3 a b c (upd3 T x y z v)"
  by (cases "x < length T")
     (auto simp: has_shape3_def upd3_def list_all_length nth_list_update has_shape2_upd2)

lemma has_shape4_upd4: "has_shape4 a b c d T \<Longrightarrow> has_shape4 a b c d (upd4 T x y z w v)"
  by (cases "x < length T")
     (auto simp: has_shape4_def upd4_def list_all_length nth_list_update has_shape3_upd3)

lemma has_shape2_zeros2: "has_shape2 a b (zeros2 (a, b))"
  by (simp add: has_shape2_def zeros2_def zeros1_def list_all_length)

lemma has_shape3_zeros3: "has_shape3 a b c (zeros3 a b c)"
  by (simp add: has_shape3_def zeros3_def list_all_length has_shape2_zeros2)

lemma has_shape4_zeros4: "has_shape4 a b c d (zeros4 a b c d)"
  by (simp add: has_shape4_def zeros4_def list_all_length has_shape3_zeros3)

lemma getA_body_shape:
  assumes "A_shaped m st"
  shows "A_shaped m (getA_body ro j k i st)"
  unfolding getA_body_def Let_def split_beta fst_conv snd_conv A_shaped_def
  by (intro conjI has_shape4_upd4 has_shape3_upd3) (use assms in \<open>simp_all add: A_shaped_def\<close>)

lemma getB_body_shape:
  assumes "B_shaped m st"
  shows "B_shaped m (getB_body ro j i st)"
  unfolding getB_body_def Let_def split_beta fst_conv snd_conv B_shaped_def
  by (intro conjI has_shape2_upd2 has_shape3_upd3) (use assms in \<open>simp_all add: B_shaped_def\<close>)

lemma getA_shape: "A_shaped (M ro) (getA ro)"
  unfolding getA_def
proof (rule fold_invariant [where P = "A_shaped (M ro)"])
  show "A_shaped (M ro) (zeros4 4 (M ro) (M ro) (M ro), zeros3 4 (M ro) (M ro))"
    by (simp add: A_shaped_def has_shape4_zeros4 has_shape3_zeros3)
next
  fix j s assume "A_shaped (M ro) s"
  then show "A_shaped (M ro) (fold (\<lambda>k. fold (getA_body ro j k) [0..<M ro]) [0..<M ro] s)"
  proof (rule fold_invariant [where P = "A_shaped (M ro)"])
    fix k s assume "A_shaped (M ro) s"
    then show "A_shaped (M ro) (fold (getA_body ro j k) [0..<M ro] s)"
      by (rule fold_invariant [where P = "A_shaped (M ro)"]) (rule getA_body_shape)
  qed
qed

lemma getB_shape: "B_shaped (M ro) (getB ro)"
  unfolding getB_def
proof (rule fold_invariant [where P = "B_shaped (M ro)"])
  show "B_shaped (M ro) (zeros3 7 (M ro) (M ro), zeros2 (7, M ro))"
    by (simp add: B_shaped_def has_shape3_zeros3 has_shape2_zeros2)
next
  fix j s assume "B_shaped (M ro) s"
  then show "B_shaped (M ro) (fold (getB_body ro j) [0..<M ro] s)"
    by (rule fold_invariant [where P = "B_shaped (M ro)"]) (rule getB_body_shape)
qed

lemma sm_Interior: "same_model r1 r2 \<Longrightarrow> Interior r1 = Interior r2"
  by (simp add: same_model_def Interior_def InteriorShape_def)

lemma sm_uBC: "same_model r1 r2 \<Longrightarrow> uBC r1 = uBC r2"
  by (simp add: sm_Interior uBC_def Boundary_def) (simp add: same_model_def)

lemma sm_mode_fields: "same_model r1 r2 \<Longrightarrow> mode_fields r1 = mode_fields r2"
  by (rule ext) (simp add: same_model_def mode_fields_def Mode2Field_def InteriorShape_def)

lemma sm_d1: "same_model r1 r2 \<Longrightarrow> Compute_d_d1 r1 = Compute_d_d1 r2"
  by (rule ext) (simp add: same_model_def Compute_d_d1_def Compute_d_dxc_def Compute_d_dyc_def)

lemma sm_d1p: "same_model r1 r2 \<Longrightarrow> Compute_d_d1p r1 = Compute_d_d1p r2"
  by (rule ext)
     (simp add: same_model_def Compute_d_d1p_def Compute_dp_dxc_def Compute_dp_dyc_def)

lemma sm_d2: "same_model r1 r2 \<Longrightarrow> Compute_d_d2 r1 = Compute_d_d2 r2"
  by (rule ext)
     (simp add: same_model_def Compute_d_d2_def Compute_d_dxc2_def Compute_d_dyc2_def
        Compute_d_dxcyc_def Compute_d_dxc_def Compute_d_dyc_def)

lemma sm_isum:
  "same_model r1 r2 \<Longrightarrow>
   isum3 r1 = isum3 r2 \<and> isum33 r1 = isum33 r2 \<and> isum22 r1 = isum22 r2 \<and> isum2 r1 = isum2 r2"
  by (intro conjI ext) (simp_all add: sm_Interior isum3_def isum33_def isum22_def isum2_def)

lemma sm_getA_body: "same_model r1 r2 \<Longrightarrow> getA_body r1 = getA_body r2"
  by (intro ext) (simp only: getA_body_def sm_uBC sm_mode_fields sm_d1 sm_isum)

lemma sm_getB_body: "same_model r1 r2 \<Longrightarrow> getB_body r1 = getB_body r2"
  by (intro ext)
     (simp only: getB_body_def sm_uBC sm_mode_fields sm_d1 sm_d1p sm_d2 sm_isum sm_Interior)

lemma sm_getA: "same_model r1 r2 \<Longrightarrow> getA r1 = getA r2"
  by (simp add: getA_def sm_getA_body) (simp add: same_model_def)

lemma sm_getB: "same_model r1 r2 \<Longrightarrow> getB r1 = getB r2"
  by (simp add: getB_def sm_getB_body) (simp add: same_model_def)

text \<open>
  Claim C9.  For every reduction order \<open>M\<close> the reduced tensors have exactly the shapes
  \<open>Aeqs\<close> (4, M, M, M), \<open>Abc\<close> (4, M, M), \<open>Beqs\<close> (7, M, M) and \<open>Bbc\<close> (7, M), and
  they are parameter-independent: \<open>getA\<close> and \<open>getB\<close> take no design-parameter
  argument, and replacing the stored training parameters, design-space box and
  validation parameters by any others leaves both results unchanged.
\<close>

theorem reduced_tensor_shapes:
  "has_shape4 4 (M ro) (M ro) (M ro) (Aeqs ro) \<and> has_shape3 4 (M ro) (M ro) (Abc ro)
   \<and> has_shape3 7 (M ro) (M ro) (Beqs ro) \<and> has_shape2 7 (M ro) (Bbc ro)
   \<and> getA (ro\<lparr>parameters := p, design_space := d, ValidationParameters := vp\<rparr>) = getA ro
   \<and> getB (ro\<lparr>parameters := p, design_space := d, ValidationParameters := vp\<rparr>) = getB ro"
proof -
  have "same_model (ro\<lparr>parameters := p, design_space := d, ValidationParameters := vp\<rparr>) ro"
    by (simp add: same_model_def)
  then show ?thesis
    using getA_shape [of ro] getB_shape [of ro]
    by (simp add: A_shaped_def B_shaped_def Aeqs_def Abc_def Beqs_def Bbc_def sm_getA sm_getB)
qed

theorem reduced_tensor_shapes_witness:
  "has_shape4 4 1 1 1 (Aeqs lid_model) \<and> has_shape3 4 1 1 (Abc lid_model)
   \<and> has_shape3 7 1 1 (Beqs lid_model) \<and> has_shape2 7 1 (Bbc lid_model)
   \<and> getA (lid_model\<lparr>parameters := [[300, 60]], design_space := [[1, 2], [3, 4]],
        ValidationParameters := []\<rparr>) = getA lid_model
   \<and> getB (lid_model\<lparr>parameters := [[300, 60]], design_space := [[1, 2], [3, 4]],
        ValidationParameters := []\<rparr>) = getB lid_model"
proof -
  have "M lid_model = 1" by (simp add: lid_model_def)
  with reduced_tensor_shapes
    [where ro = lid_model and p = "[[300, 60]]" and d = "[[1, 2], [3, 4]]" and vp = "[]"]
  show ?thesis by simp
qed

lemma set_map2_zero:
  assumes "\<And>x y. f x y = (0::real)"
  shows "\<forall>z \<in> set (map2 f xs ys). z = 0"
  using assms by (auto simp: set_zip)

lemma sum_list_all_zero: "\<forall>x \<in> set xs. x = (0::real) \<Longrightarrow> sum_list xs = 0"
  by (induction xs) auto

lemma gsum_gmul_gscale_zero: "gsum (gmul A (gscale 0 B)) = 0"
proof -
  have "sum_list r = 0" if "r \<in> set (gmul A (gscale 0 B))" for r
  proof -
    from that obtain a b where "r = map2 (*) a b" and b: "b \<in> set (gscale 0 B)"
      by (auto simp: gmul_def set_zip)
    moreover from b have "\<forall>y \<in> set b. y = 0" by (auto simp: gscale_def)
    ultimately have "\<forall>z \<in> set r. z = 0" by (auto simp: set_zip)
    then show ?thesis by (rule sum_list_all_zero)
  qed
  then show ?thesis
    unfolding gsum_def by (intro sum_list_all_zero) auto
qed

lemma length_upd2 [simp]: "length (upd2 T a b v) = length T"
  by (simp add: upd2_def)

lemma nth_upd2_other: "c \<noteq> a \<Longrightarrow> upd2 T a b v ! c = T ! c"
  by (simp add: upd2_def)

lemma nth_upd2_same: "a < length T \<Longrightarrow> upd2 T a b v ! a = (T ! a)[b := v]"
  by (simp add: upd2_def)


lemma replicate_update_same: "(replicate m x)[i := x] = replicate m x"
  by (cases "i < m") (auto simp: list_eq_iff_nth_eq nth_list_update)

lemma getB_body_Bbc_zero:
  assumes "Bbc_zero m st"
  shows "Bbc_zero m (getB_body ro j i st)"
  using assms
  unfolding getB_body_def Let_def split_beta fst_conv snd_conv Bbc_zero_def
  by (simp add: nth_upd2_other nth_upd2_same gsum_gmul_gscale_zero replicate_update_same)

lemma getB_Bbc_zero: "Bbc_zero (M ro) (getB ro)"
  unfolding getB_def
proof (rule fold_invariant [where P = "Bbc_zero (M ro)"])
  show "Bbc_zero (M ro) (zeros3 7 (M ro) (M ro), zeros2 (7, M ro))"
    by (simp add: Bbc_zero_def zeros2_def zeros1_def)
next
  fix j s assume "Bbc_zero (M ro) s"
  then show "Bbc_zero (M ro) (fold (getB_body ro j) [0..<M ro] s)"
    by (rule fold_invariant [where P = "Bbc_zero (M ro)"]) (rule getB_body_Bbc_zero)
qed

lemma has_shape3D: 
  assumes "has_shape3 a b c T" "t < a"
  shows "length T = a" "length (T ! t) = b" "k < b \<Longrightarrow> length (T ! t ! k) = c"
  using assms by (auto simp: has_shape3_def has_shape2_def list_all_length)

lemma nth_upd3:
  assumes "has_shape3 a b c T" "t < a" "k < b" "i < c" "t' < a" "k' < b" "i' < c"
  shows "upd3 T t k i v ! t' ! k' ! i' = (if t' = t \<and> k' = k \<and> i' = i then v else T ! t' ! k' ! i')"
  using assms has_shape3D [OF assms(1,2)] 
  by (auto simp: upd3_def upd2_def nth_list_update)

lemma nth_fill_step:
  assumes "has_shape3 4 m m T" "k < m" "i < m" "t' < 4" "k' < m" "i' < m"
  shows "fill_step g k i T ! t' ! k' ! i' = (if k' = k \<and> i' = i then g t' k i else T ! t' ! k' ! i')"
proof -
  define T0 where "T0 = upd3 T 0 k i (g 0 k i)"
  define T1 where "T1 = upd3 T0 1 k i (g 1 k i)"
  define T2 where "T2 = upd3 T1 2 k i (g 2 k i)"
  define T3 where "T3 = upd3 T2 3 k i (g 3 k i)"
  have s0: "has_shape3 4 m m T0" unfolding T0_def using assms(1) by (rule has_shape3_upd3)
  have s1: "has_shape3 4 m m T1" unfolding T1_def using s0 by (rule has_shape3_upd3)
  have s2: "has_shape3 4 m m T2" unfolding T2_def using s1 by (rule has_shape3_upd3)
  have n0: "T0 ! t' ! k' ! i' = (if t' = 0 \<and> k' = k \<and> i' = i then g 0 k i else T ! t' ! k' ! i')"
    unfolding T0_def using assms by (intro nth_upd3 [where a = 4 and b = m and c = m]) simp_all
  have n1: "T1 ! t' ! k' ! i' = (if t' = 1 \<and> k' = k \<and> i' = i then g 1 k i else T0 ! t' ! k' ! i')"
    unfolding T1_def using assms s0 by (intro nth_upd3 [where a = 4 and b = m and c = m]) simp_all
  have n2: "T2 ! t' ! k' ! i' = (if t' = 2 \<and> k' = k \<and> i' = i then g 2 k i else T1 ! t' ! k' ! i')"
    unfolding T2_def using assms s1 by (intro nth_upd3 [where a = 4 and b = m and c = m]) simp_all
  have n3: "T3 ! t' ! k' ! i' = (if t' = 3 \<and> k' = k \<and> i' = i then g 3 k i else T2 ! t' ! k' ! i')"
    unfolding T3_def using assms s2 by (intro nth_upd3 [where a = 4 and b = m and c = m]) simp_all
  have "fill_step g k i T = T3"
    by (simp add: fill_step_def T0_def T1_def T2_def T3_def)
  moreover from assms(4) have "t' = 0 \<or> t' = 1 \<or> t' = 2 \<or> t' = 3" by linarith
  then have "T3 ! t' ! k' ! i' = (if k' = k \<and> i' = i then g t' k i else T ! t' ! k' ! i')"
    using n0 n1 n2 n3 by (elim disjE) simp_all
  ultimately show ?thesis by simp
qed

lemma has_shape3_fill_step: "has_shape3 4 m m T \<Longrightarrow> has_shape3 4 m m (fill_step g k i T)"
  by (simp add: fill_step_def has_shape3_upd3)

text \<open>The loop over i for a fixed k.\<close>

lemma fill_inner:
  assumes "has_shape3 4 m m T" "k < m" "n \<le> m"
  shows "has_shape3 4 m m (fold (fill_step g k) [0..<n] T) \<and>
         (\<forall>t'<4. \<forall>k'<m. \<forall>i'<m. fold (fill_step g k) [0..<n] T ! t' ! k' ! i' =
            (if k' = k \<and> i' < n then g t' k i' else T ! t' ! k' ! i'))"
  using assms(3)
proof (induction n)
  case 0
  then show ?case using assms(1) by simp
next
  case (Suc n)
  then have IH: "has_shape3 4 m m (fold (fill_step g k) [0..<n] T)"
    "\<And>t' k' i'. t' < 4 \<Longrightarrow> k' < m \<Longrightarrow> i' < m \<Longrightarrow> fold (fill_step g k) [0..<n] T ! t' ! k' ! i' =
            (if k' = k \<and> i' < n then g t' k i' else T ! t' ! k' ! i')"
    and n: "n < m" by simp_all
  have f: "fold (fill_step g k) [0..<Suc n] T = fill_step g k n (fold (fill_step g k) [0..<n] T)"
    by simp
  show ?case
    unfolding f
    using IH n assms(2)
    by (auto simp: has_shape3_fill_step nth_fill_step less_Suc_eq)
qed

lemma fill_mid:
  assumes "has_shape3 4 m m T" "n \<le> m"
  shows "has_shape3 4 m m (fold (\<lambda>k. fold (fill_step g k) [0..<m]) [0..<n] T) \<and>
         (\<forall>t'<4. \<forall>k'<m. \<forall>i'<m. fold (\<lambda>k. fold (fill_step g k) [0..<m]) [0..<n] T ! t' ! k' ! i' =
            (if k' < n then g t' k' i' else T ! t' ! k' ! i'))"
  using assms(2)
proof (induction n)
  case 0
  then show ?case using assms(1) by simp
next
  case (Suc n)
  let ?U = "fold (\<lambda>k. fold (fill_step g k) [0..<m]) [0..<n] T"
  from Suc have IH: "has_shape3 4 m m ?U"
    "\<And>t' k' i'. t' < 4 \<Longrightarrow> k' < m \<Longrightarrow> i' < m \<Longrightarrow> ?U ! t' ! k' ! i' =
            (if k' < n then g t' k' i' else T ! t' ! k' ! i')"
    and n: "n < m" by simp_all
  have f: "fold (\<lambda>k. fold (fill_step g k) [0..<m]) [0..<Suc n] T = fold (fill_step g n) [0..<m] ?U"
    by simp
  show ?case
    unfolding f
    using fill_inner [OF IH(1) n order_refl, of g] IH(2)
    by (auto simp: less_Suc_eq)
qed


lemma fill_outer:
  assumes "has_shape3 4 m m T" "0 < n"
  shows "filled m g (fold (\<lambda>j. fold (\<lambda>k. fold (fill_step g k) [0..<m]) [0..<m]) [0..<n] T)"
proof -
  let ?F = "\<lambda>j::nat. fold (\<lambda>k. fold (fill_step g k) [0..<m]) [0..<m]"
  from assms(2) obtain n' where n': "n = Suc n'" by (cases n) auto
  have sh: "has_shape3 4 m m (fold ?F [0..<n'] T)"
    by (rule fold_invariant [where P = "has_shape3 4 m m"])
       (use assms(1) fill_mid [OF _ order_refl] in auto)
  have "fold ?F [0..<n] T = ?F n' (fold ?F [0..<n'] T)"
    by (simp add: n')
  then show ?thesis
    using fill_mid [OF sh order_refl, of g] by (simp add: filled_def)
qed

lemma snd_fold:
  assumes "\<And>x s. snd (f x s) = g x (snd s)"
  shows "snd (fold f xs s) = fold g xs (snd s)"
  using assms by (induction xs arbitrary: s) simp_all

lemma snd_getA_body: "snd (getA_body ro j k i st) = fill_step (Abc_entry ro) k i (snd st)"
  by (simp add: getA_body_def fill_step_def Abc_entry_def Let_def split_beta)

lemma Abc_fold:
  "Abc ro = fold (\<lambda>j. fold (\<lambda>k. fold (fill_step (Abc_entry ro) k) [0..<M ro]) [0..<M ro])
              [0..<M ro] (zeros3 4 (M ro) (M ro))"
proof -
  have 1: "snd (fold (getA_body ro j k) xs s) = fold (fill_step (Abc_entry ro) k) xs (snd s)" for j k xs s
    by (rule snd_fold) (rule snd_getA_body)
  have 2: "snd (fold (\<lambda>k. fold (getA_body ro j k) ys) xs s)
         = fold (\<lambda>k. fold (fill_step (Abc_entry ro) k) ys) xs (snd s)" for j xs ys s
    by (rule snd_fold) (rule 1)
  have 3: "snd (fold (\<lambda>j. fold (\<lambda>k. fold (getA_body ro j k) ys) xs) zs s)
         = fold (\<lambda>j. fold (\<lambda>k. fold (fill_step (Abc_entry ro) k) ys) xs) zs (snd s)" for xs ys zs s
    by (rule snd_fold) (rule 2)
  show ?thesis by (simp add: Abc_def getA_def 3)
qed

lemma Abc_filled: "0 < M ro \<Longrightarrow> filled (M ro) (Abc_entry ro) (Abc ro)"
  unfolding Abc_fold by (rule fill_outer) (simp_all add: has_shape3_zeros3)

text \<open>
  Claim C2, as amended.  For every snapshot set and every reduction order \<open>M\<close> the
  rows \<open>Bbc[2, :]\<close> and \<open>Bbc[3, :]\<close> are exactly zero.  The slots \<open>Abc[2, :, :]\<close> and
  \<open>Abc[3, :, :]\<close> are not structurally zero: \<open>Abc[2, k, i]\<close> is the interior sum of
  \<open>v_i * d(uBC)/dxc * u_k\<close> and \<open>Abc[3, k, i]\<close> the interior sum of
  \<open>v_i * d(uBC)/dyc * u_k\<close>, for the y-velocity of mode \<open>i\<close>, the x-velocity of mode
  \<open>k\<close> and the boundary profile \<open>uBC\<close> of the x-velocity.
\<close>

theorem boundary_tensor_slots:
  "Bbc ro ! 2 = replicate (M ro) 0 \<and> Bbc ro ! 3 = replicate (M ro) 0
   \<and> (\<forall>k < M ro. \<forall>i < M ro.
        Abc ro ! 2 ! k ! i =
          isum3 ro (snd (snd (mode_fields ro i))) (fst (Compute_d_d1 ro (uBC ro)))
                   (fst (snd (mode_fields ro k)))
      \<and> Abc ro ! 3 ! k ! i =
          isum3 ro (snd (snd (mode_fields ro i))) (snd (Compute_d_d1 ro (uBC ro)))
                   (fst (snd (mode_fields ro k))))"
proof -
  have "Abc ro ! 2 ! k ! i = Abc_entry ro 2 k i \<and> Abc ro ! 3 ! k ! i = Abc_entry ro 3 k i"
    if "k < M ro" "i < M ro" for k i
  proof -
    from that have "0 < M ro" by simp
    from Abc_filled [OF this] that show ?thesis by (simp add: filled_def)
  qed
  then show ?thesis
    using getB_Bbc_zero [of ro]
    by (simp add: Bbc_zero_def Bbc_def Abc_entry_def split_beta)
qed

theorem boundary_tensor_slots_witness:
  "Bbc lid_model ! 2 = [0] \<and> Bbc lid_model ! 3 = [0]
   \<and> Abc lid_model ! 2 ! 0 ! 0 = 0 \<and> Abc lid_model ! 3 ! 0 ! 0 = - 6 / 25"
proof -
  have m: "M lid_model = 1" by (simp add: lid_model_def)
  have 2: "isum3 lid_model (snd (snd (mode_fields lid_model 0))) (fst (Compute_d_d1 lid_model (uBC lid_model)))
                   (fst (snd (mode_fields lid_model 0))) = 0"
    by code_simp
  have 3: "isum3 lid_model (snd (snd (mode_fields lid_model 0))) (snd (Compute_d_d1 lid_model (uBC lid_model)))
                   (fst (snd (mode_fields lid_model 0))) = - 6 / 25"
    by code_simp
  from boundary_tensor_slots [of lid_model] show ?thesis
    by (simp add: m 2 3)
qed

text \<open>
  Claim C2 as stated fails: in the 3 by 3 cavity with the moving lid, \<open>Abc[3, 0, 0]\<close> is
  \<open>(4/5) * (-1/2) * (3/5) = -6/25\<close>, the product of the mode's y-velocity, the
  y-derivative of the lid profile and the mode's x-velocity at the interior point.
\<close>

theorem Abc_slot3_counterexample: "Abc lid_model ! 3 ! 0 ! 0 \<noteq> 0"
proof -
  have "Abc lid_model ! 3 ! 0 ! 0 = - 6 / 25" by code_simp
  then show ?thesis by simp
qed

section \<open>The residual in its two modes\<close>

lemma map2_map_map: "map2 f (map g xs) (map h xs) = map (\<lambda>x. f (g x) (h x)) xs"
  by (induction xs) simp_all

lemma getJac_rows:
  "getJac cosf sinf alpha =
     (map (\<lambda>r. fst (Jac_row cosf sinf r)) alpha,
      map (\<lambda>r. fst (snd (Jac_row cosf sinf r))) alpha,
      map (\<lambda>r. fst (snd (snd (Jac_row cosf sinf r)))) alpha,
      map (\<lambda>r. snd (snd (snd (Jac_row cosf sinf r)))) alpha)"
  by (simp add: getJac_def Jac_row_def Theta_of_def cols_def Let_def)

lemma getABCoef_rows:
  "getABCoef cosf sinf alpha =
     (map (\<lambda>r. fst (ABCoef_row cosf sinf r)) alpha, map (\<lambda>r. snd (ABCoef_row cosf sinf r)) alpha)"
  by (simp add: getABCoef_def getJac_rows ABCoef_row_def Let_def split_beta cols_def
        gmul_def gadd_def gsq_def gscale_def vmul_def vadd_def map2_map_map)

lemma alphai_of_row: "b < length x \<Longrightarrow> alphai_of x b = [take 2 (x ! b)]"
  by (simp add: alphai_of_def cols_def Cons_nth_drop_Suc [symmetric])

lemma Jac_row_take2: "Jac_row cosf sinf (take 2 r) = Jac_row cosf sinf r"
  by (simp add: Jac_row_def drop_take)

lemma ABCoef_row_take2: "ABCoef_row cosf sinf (take 2 r) = ABCoef_row cosf sinf r"
  by (simp add: ABCoef_row_def Jac_row_take2)

lemma system_of_row:
  assumes "b < length x"
  shows "system_of ro (alphai_of x b) =
     (contract4 (fst (ABCoef_row cos sin (x ! b))) (Aeqs ro) (M ro),
      gadd (contract3 (fst (ABCoef_row cos sin (x ! b))) (Abc ro) (M ro))
           (contract3 (snd (ABCoef_row cos sin (x ! b))) (Beqs ro) (M ro)),
      map uminus (contract2 (snd (ABCoef_row cos sin (x ! b))) (Bbc ro) (M ro)))"
  by (simp add: system_of_def alphai_of_row [OF assms] getABCoef_rows ABCoef_row_take2 Let_def)

lemma loss_Eqs_fx_nth:
  assumes "b < length x" "length lamda = length x"
  shows "loss_Eqs_fx ro x lamda ! b =
     vsub (vadd (compute_eAe (contract4 (fst (ABCoef_row cos sin (x ! b))) (Aeqs ro) (M ro)) (lamda ! b))
                (matvec (gadd (contract3 (fst (ABCoef_row cos sin (x ! b))) (Abc ro) (M ro))
                              (contract3 (snd (ABCoef_row cos sin (x ! b))) (Beqs ro) (M ro)))
                        (lamda ! b)))
          (map uminus (contract2 (snd (ABCoef_row cos sin (x ! b))) (Bbc ro) (M ro)))"
  using assms
  by (simp add: loss_Eqs_fx_def getABCoef_rows Let_def compute_eAe_def o_def split_beta)

lemma sum_list_upt: "(\<Sum>t\<leftarrow>[0..<n]. f t) = (\<Sum>t<n. f t)"
  by (simp add: sum_list_sum_nth atLeast0LessThan)

lemma dot_sum:
  assumes "length xs = n" "length ys = n"
  shows "dot xs ys = (\<Sum>i<n. xs ! i * ys ! i)"
  using assms by (simp add: dot_def sum_list_sum_nth atLeast0LessThan)

lemma transpose_rect_nth:
  assumes "has_shape2 a b A" "j < b" "0 < a"
  shows "transpose A ! j = map (\<lambda>r. r ! j) A"
proof -
  from assms(1) have rows: "list_all (\<lambda>r. length r = b) A" and ne: "A \<noteq> []"
    using assms(3) by (auto simp: has_shape2_def)
  have len: "length (transpose A) = b" using ne rows by (rule length_transpose_rect)
  have "filter (\<lambda>ys. j < length ys) A = A"
    using rows assms(2) by (auto simp: list_all_iff filter_id_conv)
  then show ?thesis using assms(2) len by (simp add: nth_transpose)
qed

lemma has_shape2_contract3: "has_shape2 m m (contract3 c T m)"
  by (intro has_shape2I) (simp_all add: contract3_def)

lemma contract4_nth:
  assumes "k < m"
  shows "has_shape2 m m (contract4 c T m ! k)"
    and "\<And>i j. i < m \<Longrightarrow> j < m \<Longrightarrow>
           contract4 c T m ! k ! i ! j = (\<Sum>t<length T. c ! t * T ! t ! k ! i ! j)"
  using assms by (auto intro!: has_shape2I simp: contract4_def sum_list_upt)

lemma contract3_nth:
  "i < m \<Longrightarrow> j < m \<Longrightarrow> contract3 c T m ! i ! j = (\<Sum>t<length T. c ! t * T ! t ! i ! j)"
  by (simp add: contract3_def sum_list_upt)

lemma contract2_nth:
  "i < m \<Longrightarrow> contract2 c T m ! i = (\<Sum>t<length T. c ! t * T ! t ! i)"
  by (simp add: contract2_def sum_list_upt)

lemma compute_eAe_nth:
  assumes "k < m" "length e = m" "length A = m" "has_shape2 m m (A ! k)"
  shows "compute_eAe A e ! k = (\<Sum>i<m. \<Sum>j<m. e ! i * A ! k ! i ! j * e ! j)"
proof -
  have m: "0 < m" using assms(1) by simp
  have tl: "length (transpose (A ! k)) = m"
    using has_shape2D(1) [OF has_shape2_transpose [OF assms(4) m]] .
  have col: "dot e (transpose (A ! k) ! j) = (\<Sum>i<m. e ! i * A ! k ! i ! j)" if "j < m" for j
  proof -
    have "transpose (A ! k) ! j = map (\<lambda>r. r ! j) (A ! k)"
      using assms(4) that m by (rule transpose_rect_nth)
    moreover have "length (A ! k) = m" using assms(4) by (simp add: has_shape2_def)
    ultimately show ?thesis
      using assms(2) by (simp add: dot_sum [where n = m])
  qed
  have "compute_eAe A e ! k = dot (map (dot e) (transpose (A ! k))) e"
    using assms(1,3) by (simp add: compute_eAe_def)
  also have "\<dots> = (\<Sum>j<m. dot e (transpose (A ! k) ! j) * e ! j)"
    using tl assms(2) by (simp add: dot_sum [where n = m])
  also have "\<dots> = (\<Sum>j<m. (\<Sum>i<m. e ! i * A ! k ! i ! j) * e ! j)"
    by (intro sum.cong) (simp_all add: col)
  also have "\<dots> = (\<Sum>j<m. \<Sum>i<m. e ! i * A ! k ! i ! j * e ! j)"
    by (simp add: sum_distrib_right)
  also have "\<dots> = (\<Sum>i<m. \<Sum>j<m. e ! i * A ! k ! i ! j * e ! j)"
    by (rule sum.swap)
  finally show ?thesis .
qed


lemma lengths_of_shapes:
  "length (Aeqs ro) = 4" "length (Abc ro) = 4" "length (Beqs ro) = 7" "length (Bbc ro) = 7"
  using getA_shape [of ro] getB_shape [of ro]
  by (simp_all add: A_shaped_def B_shaped_def Aeqs_def Abc_def Beqs_def Bbc_def
        has_shape4_def has_shape3_def has_shape2_def)

lemma matvec_gadd_nth:
  assumes "k < m" "length e = m"
  shows "matvec (gadd (contract3 ca Ta m) (contract3 cb Tb m)) e ! k
         = (\<Sum>j<m. ((\<Sum>t<length Ta. ca ! t * Ta ! t ! k ! j)
                    + (\<Sum>t<length Tb. cb ! t * Tb ! t ! k ! j)) * e ! j)"
proof -
  have l3: "length (contract3 c T m) = m" "length (contract3 c T m ! k) = m" for c T
    using assms(1) by (simp_all add: contract3_def)
  have row: "gadd (contract3 ca Ta m) (contract3 cb Tb m) ! k
             = map2 (+) (contract3 ca Ta m ! k) (contract3 cb Tb m ! k)"
    using assms(1) by (simp add: gadd_def l3)
  have "matvec (gadd (contract3 ca Ta m) (contract3 cb Tb m)) e ! k
        = dot (map2 (+) (contract3 ca Ta m ! k) (contract3 cb Tb m ! k)) e"
    using assms(1) by (simp add: matvec_def gadd_def l3 row [unfolded gadd_def])
  also have "\<dots> = (\<Sum>j<m. (contract3 ca Ta m ! k ! j + contract3 cb Tb m ! k ! j) * e ! j)"
    using assms(2) by (simp add: dot_sum [where n = m] l3)
  also have "\<dots> = (\<Sum>j<m. ((\<Sum>t<length Ta. ca ! t * Ta ! t ! k ! j)
                    + (\<Sum>t<length Tb. cb ! t * Tb ! t ! k ! j)) * e ! j)"
    using assms(1) by (intro sum.cong) (simp_all add: contract3_nth)
  finally show ?thesis .
qed

lemma residual_row_nth:
  assumes "k < M ro" "length e = M ro"
  shows "vsub (vadd (compute_eAe (contract4 ca (Aeqs ro) (M ro)) e)
                (matvec (gadd (contract3 ca (Abc ro) (M ro)) (contract3 cb (Beqs ro) (M ro))) e))
          (map uminus (contract2 cb (Bbc ro) (M ro))) ! k
         = residual_formula ro ca cb e k"
proof -
  have lA: "length (contract4 ca (Aeqs ro) (M ro)) = M ro" by (simp add: contract4_def)
  have q: "compute_eAe (contract4 ca (Aeqs ro) (M ro)) e ! k
           = (\<Sum>i<M ro. \<Sum>j<M ro. e ! i * (\<Sum>t<4. ca ! t * Aeqs ro ! t ! k ! i ! j) * e ! j)"
    using compute_eAe_nth [OF assms lA contract4_nth(1) [OF assms(1)]]
    by (simp add: contract4_nth(2) [OF assms(1)] lengths_of_shapes)
  have l: "matvec (gadd (contract3 ca (Abc ro) (M ro)) (contract3 cb (Beqs ro) (M ro))) e ! k
           = (\<Sum>j<M ro. ((\<Sum>t<4. ca ! t * Abc ro ! t ! k ! j)
                    + (\<Sum>t<7. cb ! t * Beqs ro ! t ! k ! j)) * e ! j)"
    using matvec_gadd_nth [OF assms] by (simp add: lengths_of_shapes)
  have s: "map uminus (contract2 cb (Bbc ro) (M ro)) ! k = - (\<Sum>t<7. cb ! t * Bbc ro ! t ! k)"
    using assms(1) by (simp add: contract2_def sum_list_upt lengths_of_shapes)
  have lens: "length (compute_eAe (contract4 ca (Aeqs ro) (M ro)) e) = M ro"
     "length (matvec (gadd (contract3 ca (Abc ro) (M ro)) (contract3 cb (Beqs ro) (M ro))) e) = M ro"
     "length (contract2 cb (Bbc ro) (M ro)) = M ro"
    by (simp_all add: compute_eAe_def contract4_def matvec_def gadd_def contract3_def contract2_def)
  have "vsub (vadd (compute_eAe (contract4 ca (Aeqs ro) (M ro)) e)
                (matvec (gadd (contract3 ca (Abc ro) (M ro)) (contract3 cb (Beqs ro) (M ro))) e))
          (map uminus (contract2 cb (Bbc ro) (M ro))) ! k
        = compute_eAe (contract4 ca (Aeqs ro) (M ro)) e ! k
          + matvec (gadd (contract3 ca (Abc ro) (M ro)) (contract3 cb (Beqs ro) (M ro))) e ! k
          - map uminus (contract2 cb (Bbc ro) (M ro)) ! k"
    using assms(1) lens by (simp add: vsub_def vadd_def)
  then show ?thesis unfolding q l s by (simp add: residual_formula_def)
qed

lemma getABCoef_nth:
  "b < length x \<Longrightarrow> fst (getABCoef cosf sinf x) ! b = fst (ABCoef_row cosf sinf (x ! b))"
  "b < length x \<Longrightarrow> snd (getABCoef cosf sinf x) ! b = snd (ABCoef_row cosf sinf (x ! b))"
  by (simp_all add: getABCoef_rows)

text \<open>
  Claim C3.  For every design-parameter row \<open>x[b]\<close> and every modal-coefficient vector,
  the residual \<open>eqs\<close> assembled inside \<open>POD_Gfsolve\<close> from \<open>Ai\<close>, \<open>Bi\<close> and
  \<open>sourcei\<close> of that row (evaluated at the normalised unknown \<open>xn\<close>, which it
  de-normalises to \<open>lamda\<close>) equals row \<open>b\<close> of the residual \<open>fx\<close> that \<open>loss_Eqs\<close>
  computes for the batch \<open>x\<close> and the coefficients \<open>lamda\<close>.  When the coefficient
  vector has \<open>M\<close> entries, entry \<open>k\<close> of both is the formula
  \<open>lamda^T A lamda + B lamda - source\<close>, with \<open>A\<close> the sum over the 4 slots of
  \<open>Acoef[t] * Aeqs[t]\<close>, \<open>B\<close> the sum of \<open>Acoef[t] * Abc[t]\<close> plus the sum over the 7
  slots of \<open>Bcoef[t] * Beqs[t]\<close>, and \<open>source\<close> minus the sum of \<open>Bcoef[t] * Bbc[t]\<close>.
\<close>

theorem residual_dual_mode:
  assumes "b < length x" and "length lamda = length x"
    and "lamda ! b = vadd (vmul xn (proj_std ro)) (proj_mean ro)"
    and "system_of ro (alphai_of x b) = (Ai, Bi, sourcei)"
  shows "eqs ro xn Ai Bi sourcei = loss_Eqs_fx ro x lamda ! b
    \<and> (length (lamda ! b) = M ro \<longrightarrow>
        (\<forall>k<M ro. loss_Eqs_fx ro x lamda ! b ! k
           = residual_formula ro (fst (getABCoef cos sin x) ! b) (snd (getABCoef cos sin x) ! b)
               (lamda ! b) k))"
proof -
  have "eqs ro xn Ai Bi sourcei = loss_Eqs_fx ro x lamda ! b"
    using assms(3,4)
    by (auto simp: eqs_def Let_def loss_Eqs_fx_nth [OF assms(1,2)] system_of_row [OF assms(1)])
  moreover have "loss_Eqs_fx ro x lamda ! b ! k
           = residual_formula ro (fst (getABCoef cos sin x) ! b) (snd (getABCoef cos sin x) ! b)
               (lamda ! b) k" if "length (lamda ! b) = M ro" "k < M ro" for k
    unfolding loss_Eqs_fx_nth [OF assms(1,2)] getABCoef_nth [OF assms(1)]
    using that(2,1) by (rule residual_row_nth)
  ultimately show ?thesis by blast
qed

theorem residual_dual_mode_witness:
  "0 < length [[200, 90 :: real]] \<and> length [[1 :: real]] = length [[200, 90 :: real]]
   \<and> [[1]] ! 0 = vadd (vmul [0] (proj_std lid_model)) (proj_mean lid_model)
   \<and> length ([[1 :: real]] ! 0) = M lid_model \<and> 0 < M lid_model
   \<and> eqs lid_model [0] (fst (system_of lid_model (alphai_of [[200, 90]] 0)))
        (fst (snd (system_of lid_model (alphai_of [[200, 90]] 0))))
        (snd (snd (system_of lid_model (alphai_of [[200, 90]] 0))))
      = loss_Eqs_fx lid_model [[200, 90]] [[1]] ! 0
   \<and> loss_Eqs_fx lid_model [[200, 90]] [[1]] ! 0 ! 0
      = residual_formula lid_model (fst (getABCoef cos sin [[200, 90]]) ! 0)
          (snd (getABCoef cos sin [[200, 90]]) ! 0) ([[1]] ! 0) 0"
proof -
  have l: "[[1]] ! 0 = vadd (vmul [0] (proj_std lid_model)) (proj_mean lid_model)"
    by (simp add: vadd_def vmul_def lid_model_def)
  have m: "M lid_model = 1" by (simp add: lid_model_def)
  have "0 < length [[200, 90 :: real]]" "length [[1 :: real]] = length [[200, 90 :: real]]"
    by simp_all
  from residual_dual_mode [OF this l, of "fst (system_of lid_model (alphai_of [[200, 90]] 0))"
      "fst (snd (system_of lid_model (alphai_of [[200, 90]] 0)))"
      "snd (snd (system_of lid_model (alphai_of [[200, 90]] 0)))"]
  show ?thesis using l [symmetric] m by simp
qed

section \<open>The Galerkin solver\<close>

lemma POD_Gfsolve_case_Inr:
  assumes "lamda0_of ro alpha lamda_init i = Inr lamda0"
  shows "POD_Gfsolve_case fsolve ro alpha lamda_init i = Inr (case_result fsolve ro alpha lamda0 i)"
  using assms
  by (simp add: POD_Gfsolve_case_def case_result_def lamdasol_of_def err_of_def diag_of_def
        Let_def split_beta)

lemma lamda0_of_ok:
  assumes "init_ok ro alpha lamda_init" "i < length alpha"
  shows "\<exists>lamda0. lamda0_of ro alpha lamda_init i = Inr lamda0"
  using assms by (auto simp: init_ok_def lamda0_of_def split: option.splits)

lemma loop_Inr:
  assumes "\<And>i. i \<in> set js \<Longrightarrow> POD_Gfsolve_case fsolve ro alpha lamda_init i = Inr (g i)"
  shows "POD_Gfsolve_loop fsolve ro alpha lamda_init js st =
           Inr (fold (\<lambda>i L. L[i := fst (g i)]) js (fst st), snd st @ concat (map (\<lambda>i. snd (g i)) js))"
  using assms
proof (induction js arbitrary: st)
  case Nil
  then show ?case by simp
next
  case (Cons j js)
  then show ?case by (simp add: split_beta)
qed

lemma length_fold_update [simp]: "length (fold (\<lambda>i L. L[i := h i]) js L0) = length L0"
  by (induction js arbitrary: L0) simp_all

lemma nth_fold_update_upt:
  assumes "i < n" "n \<le> length L0"
  shows "fold (\<lambda>i L. L[i := h i]) [0..<n] L0 ! i = h i"
  using assms
proof (induction n)
  case 0
  then show ?case by simp
next
  case (Suc n)
  then show ?case by (cases "i = n") (simp_all add: nth_list_update)
qed

lemma POD_Gfsolve_Inr:
  assumes "init_ok ro alpha lamda_init"
  shows "POD_Gfsolve fsolve ro alpha lamda_init =
     Inr (fold (\<lambda>i L. L[i := fst (case_of fsolve ro alpha lamda_init i)]) [0..<length alpha]
            (zeros2 (length alpha, M ro)),
          concat (map (\<lambda>i. snd (case_of fsolve ro alpha lamda_init i)) [0..<length alpha]))"
proof -
  have "POD_Gfsolve_case fsolve ro alpha lamda_init i = Inr (case_of fsolve ro alpha lamda_init i)"
    if "i \<in> set [0..<length alpha]" for i
  proof -
    from that have "i < length alpha" by simp
    from lamda0_of_ok [OF assms this] obtain l0 where "lamda0_of ro alpha lamda_init i = Inr l0" ..
    then show ?thesis by (simp add: POD_Gfsolve_case_Inr case_of_def)
  qed
  from loop_Inr [of "[0..<length alpha]" fsolve ro alpha lamda_init "case_of fsolve ro alpha lamda_init", OF this]
  show ?thesis by (simp add: POD_Gfsolve_def)
qed











lemma list2: "length xs = 2 \<Longrightarrow> xs = [xs ! 0, xs ! 1]"
  by (cases xs; cases "tl xs") auto

lemma nn_dis_nth:
  assumes "wf_design ro" "i < length alpha" "2 \<le> length (alpha ! i)" "j < length (parameters ro)"
  shows "nn_dis ro (alphai_of alpha i) ! j = scaled_distance ro (alpha ! i) (parameters ro ! j)"
proof -
  from assms(1,4) have p: "length (parameters ro ! j) = 2"
    by (simp add: wf_design_def list_all_length)
  from assms(1) have d: "length (design_space ro ! 0) = 2" "length (design_space ro ! 1) = 2"
    by (simp_all add: wf_design_def)
  obtain a0 a1 where a: "take 2 (alpha ! i) = [a0, a1]" "a0 = alpha ! i ! 0" "a1 = alpha ! i ! 1"
    using assms(3) by (cases "alpha ! i"; cases "tl (alpha ! i)") auto
  have "nn_dis ro (alphai_of alpha i) ! j =
     norm2 (vdiv (vsub [a0, a1] (parameters ro ! j)) (vsub (design_space ro ! 1) (design_space ro ! 0)))"
    using assms(2,4) by (simp add: nn_dis_def alphai_of_row a)
  also have "\<dots> = scaled_distance ro (alpha ! i) (parameters ro ! j)"
    apply (subst list2 [OF p], subst list2 [OF d(1)], subst list2 [OF d(2)])
    apply (simp add: norm2_def vdiv_def vsub_def scaled_distance_def a lessThan_Suc numeral_2_eq_2)
    done
  finally show ?thesis .
qed

lemma first_index_min:
  assumes "xs \<noteq> []"
  shows "first_index xs (min_list xs) < length xs"
    and "\<And>j. j < length xs \<Longrightarrow> xs ! first_index xs (min_list xs) \<le> (xs ! j :: real)"
    and "\<And>j. j < first_index xs (min_list xs) \<Longrightarrow> xs ! first_index xs (min_list xs) < xs ! j"
proof -
  let ?m = "min_list xs"
  let ?k = "first_index xs ?m"
  have m: "?m = Min (set xs)" using assms by (rule min_list_Min)
  then have mem: "?m \<in> set xs" using assms by (simp add: Min_in)
  have "length (takeWhile (\<lambda>x. x \<noteq> ?m) xs) \<noteq> length xs"
  proof
    assume "length (takeWhile (\<lambda>x. x \<noteq> ?m) xs) = length xs"
    then have "takeWhile (\<lambda>x. x \<noteq> ?m) xs = xs"
      by (metis takeWhile_eq_take take_all order_refl)
    with mem show False by auto
  qed
  with length_takeWhile_le [of "\<lambda>x. x \<noteq> ?m" xs]
  show k: "?k < length xs"
    unfolding first_index_def by simp
  have eq: "xs ! ?k = ?m"
    using nth_length_takeWhile [of "\<lambda>x. x \<noteq> ?m" xs] k by (simp add: first_index_def)
  have le: "?m \<le> xs ! j" if "j < length xs" for j
    unfolding m using that by simp
  show "xs ! ?k \<le> xs ! j" if "j < length xs" for j
    using le [OF that] by (simp only: eq)
  show "xs ! ?k < xs ! j" if "j < ?k" for j
  proof -
    from that k have j: "j < length xs" by simp
    from that have "xs ! j \<in> set (takeWhile (\<lambda>x. x \<noteq> ?m) xs)"
      by (metis first_index_def nth_mem takeWhile_nth)
    then have "xs ! j \<noteq> ?m" by (auto dest: set_takeWhileD)
    moreover have "?m \<le> xs ! j" using j by (rule le)
    ultimately show ?thesis by (simp only: eq)
  qed
qed

lemma nn_ind_props:
  assumes "wf_design ro" "i < length alpha" "2 \<le> length (alpha ! i)"
  shows "nn_ind ro (alphai_of alpha i) < length (parameters ro)"
    and "\<And>j. j < length (parameters ro) \<Longrightarrow>
           scaled_distance ro (alpha ! i) (parameters ro ! nn_ind ro (alphai_of alpha i))
           \<le> scaled_distance ro (alpha ! i) (parameters ro ! j)"
    and "\<And>j. j < nn_ind ro (alphai_of alpha i) \<Longrightarrow>
           scaled_distance ro (alpha ! i) (parameters ro ! nn_ind ro (alphai_of alpha i))
           < scaled_distance ro (alpha ! i) (parameters ro ! j)"
proof -
  let ?dis = "nn_dis ro (alphai_of alpha i)"
  let ?ind = "nn_ind ro (alphai_of alpha i)"
  have len: "length ?dis = length (parameters ro)" by (simp add: nn_dis_def)
  with assms(1) have ne: "?dis \<noteq> []" by (auto simp: wf_design_def)
  have ind: "?ind = first_index ?dis (min_list ?dis)" by (simp add: nn_ind_def Let_def)
  note fm = first_index_min [OF ne, folded ind]
  show k: "?ind < length (parameters ro)" using fm(1) len by simp
  show "scaled_distance ro (alpha ! i) (parameters ro ! ?ind)
           \<le> scaled_distance ro (alpha ! i) (parameters ro ! j)" if "j < length (parameters ro)" for j
    using fm(2) [of j] that k by (simp add: len nn_dis_nth [OF assms])
  show "scaled_distance ro (alpha ! i) (parameters ro ! ?ind)
           < scaled_distance ro (alpha ! i) (parameters ro ! j)" if "j < ?ind" for j
    using fm(3) [OF that] that k by (simp add: nn_dis_nth [OF assms])
qed

text \<open>
  Claim C4.  For every query point \<open>alpha[i]\<close>, when no initial guess is supplied,
  \<open>POD_Gfsolve\<close> picks the training sample \<open>ind\<close> whose parameter row minimises the
  scaled distance to the query (the first such sample when several tie), takes as
  \<open>lamda0\<close> the first \<open>M\<close> projection coefficients of that sample, hands the root
  finder the guess \<open>(lamda0 - proj_mean) / proj_std\<close>, and stores
  \<open>lamdasol * proj_std + proj_mean\<close>, the solution de-normalised with the same
  statistics, as row \<open>i\<close> of the result.
\<close>

theorem nearest_neighbour_guess:
  assumes "wf_design ro" and "i < length alpha" and "2 \<le> length (alpha ! i)"
  shows "\<exists>lamda out. POD_Gfsolve fsolve ro alpha None = Inr (lamda, out) \<and>
    (let ind = nn_ind ro (alphai_of alpha i);
         lamda0 = map (\<lambda>r. r ! ind) (take (M ro) (projections ro));
         (Ai, Bi, sourcei) = system_of ro (alphai_of alpha i);
         guess = vdiv (vsub lamda0 (proj_mean ro)) (proj_std ro);
         lamdasol = fsolve (\<lambda>x. eqs ro x Ai Bi sourcei) guess
     in ind < length (parameters ro)
      \<and> (\<forall>j < length (parameters ro).
            scaled_distance ro (alpha ! i) (parameters ro ! ind)
            \<le> scaled_distance ro (alpha ! i) (parameters ro ! j))
      \<and> (\<forall>j < ind.
            scaled_distance ro (alpha ! i) (parameters ro ! ind)
            < scaled_distance ro (alpha ! i) (parameters ro ! j))
      \<and> lamda ! i = vadd (vmul lamdasol (proj_std ro)) (proj_mean ro))"
proof -
  from assms(1) have ne: "parameters ro \<noteq> []" by (simp add: wf_design_def)
  then have ok: "init_ok ro alpha None" by (simp add: init_ok_def)
  let ?ind = "nn_ind ro (alphai_of alpha i)"
  let ?l0 = "map (\<lambda>r. r ! ?ind) (take (M ro) (projections ro))"
  let ?g = "case_of fsolve ro alpha None"
  let ?L = "fold (\<lambda>i L. L[i := fst (?g i)]) [0..<length alpha] (zeros2 (length alpha, M ro))"
  have l0: "lamda0_of ro alpha None i = Inr ?l0" using ne by (simp add: lamda0_of_def)
  have "?L ! i = fst (?g i)"
    using assms(2) by (intro nth_fold_update_upt) simp_all
  then have row: "?L ! i = vadd (vmul (lamdasol_of fsolve ro alpha ?l0 i) (proj_std ro)) (proj_mean ro)"
    by (simp add: case_of_def l0 case_result_def Let_def)
  show ?thesis
    using POD_Gfsolve_Inr [OF ok, of fsolve] row nn_ind_props [OF assms]
    by (simp add: Let_def split_beta lamdasol_of_def)
qed

lemma wf_design_lid_model2: "wf_design lid_model2"
  by (simp add: wf_design_def lid_model2_def lid_model_def)

lemma nn_ind_lid_model2: "nn_ind lid_model2 (alphai_of [[350, 100]] 0) = 1"
proof -
  have "nn_dis lid_model2 (alphai_of [[350, 100]] 0) = [sqrt (481 / 576), sqrt (25 / 576)]"
    by (simp add: nn_dis_def alphai_of_def cols_def lid_model2_def lid_model_def vsub_def vdiv_def
          norm2_def power2_eq_square)
  then show ?thesis
    by (simp add: nn_ind_def first_index_def)
qed

theorem nearest_neighbour_guess_witness:
  "wf_design lid_model2 \<and> (0 :: nat) < length [[350, 100 :: real]]
   \<and> 2 \<le> length ([[350, 100 :: real]] ! 0)
   \<and> nn_ind lid_model2 (alphai_of [[350, 100]] 0) = 1
   \<and> scaled_distance lid_model2 [350, 100] [400, 110] \<le> scaled_distance lid_model2 [350, 100] [100, 60]
   \<and> (\<exists>lamda out. POD_Gfsolve (\<lambda>f x0. x0) lid_model2 [[350, 100]] None = Inr (lamda, out)
         \<and> lamda ! 0 = [2])"
proof -
  have i: "(0 :: nat) < length [[350, 100 :: real]]" and l: "2 \<le> length ([[350, 100 :: real]] ! 0)"
    by simp_all
  have p: "parameters lid_model2 = [[100, 60], [400, 110]]" "M lid_model2 = 1"
    "projections lid_model2 = [[1, 2]]" "proj_mean lid_model2 = [3 / 2]" "proj_std lid_model2 = [1 / 2]"
    by (simp_all add: lid_model2_def lid_model_def)
  from nearest_neighbour_guess [OF wf_design_lid_model2 i l, of "\<lambda>f x0. x0"]
  obtain lamda out where
    "POD_Gfsolve (\<lambda>f x0. x0) lid_model2 [[350, 100]] None = Inr (lamda, out)"
    "scaled_distance lid_model2 [350, 100] [400, 110] \<le> scaled_distance lid_model2 [350, 100] [100, 60]"
    "lamda ! 0 = [2]"
    by (auto simp: Let_def split_beta nn_ind_lid_model2 p vdiv_def vsub_def vadd_def vmul_def)
  then show ?thesis
    using wf_design_lid_model2 nn_ind_lid_model2 by auto
qed

section \<open>GetError\<close>

text \<open>
  Claim C8, as amended.  \<open>GetError\<close> raises its own exception, the one about the number
  of \<open>lamda\<close>, if and only if the number of validation parameter rows differs from the
  number of rows of the supplied batch.  That failure comes first: nothing has been
  printed, and the outcome is the same whatever the modes and the validation snapshots
  are, so no error metric has been evaluated.  It is not the only exception: with
  equal counts \<open>np.matmul\<close> raises \<open>ValueError\<close> exactly when some row of the batch
  does not have \<open>M\<close> entries, again before anything is printed.  So \<open>GetError\<close> raises
  if and only if the counts differ or some row of the batch does not have \<open>M\<close> entries.
\<close>

theorem GetError_raises:
  "(fst (GetError ro lamda) = Inl count_mismatch
      \<longleftrightarrow> length (ValidationParameters ro) \<noteq> length lamda)
   \<and> (length (ValidationParameters ro) \<noteq> length lamda \<longrightarrow>
        snd (GetError ro lamda) = []
        \<and> GetError (ro\<lparr>Modes := m, ValidationSamples := v\<rparr>) lamda = GetError ro lamda)
   \<and> (wf_modes ro \<longrightarrow>
        (fst (GetError ro lamda) = Inl ValueError
           \<longleftrightarrow> length (ValidationParameters ro) = length lamda
               \<and> \<not> list_all (\<lambda>r. length r = M ro) lamda)
      \<and> ((\<exists>e. fst (GetError ro lamda) = Inl e)
           \<longleftrightarrow> length (ValidationParameters ro) \<noteq> length lamda
               \<or> \<not> list_all (\<lambda>r. length r = M ro) lamda)
      \<and> (fst (GetError ro lamda) = Inl ValueError \<longrightarrow> snd (GetError ro lamda) = []))"
proof -
  have "length (transpose (Modes ro)) = M ro" if "wf_modes ro"
    using that by (intro length_transpose_rect) (simp_all add: wf_modes_def)
  then show ?thesis
    by (auto simp: GetError_def Let_def count_mismatch_def)
qed

theorem GetError_raises_witness:
  "wf_modes lid_model
   \<and> length (ValidationParameters lid_model) \<noteq> length [[1 :: real], [2]]
   \<and> GetError lid_model [[1], [2]] = (Inl count_mismatch, [])
   \<and> GetError (lid_model\<lparr>Modes := [], ValidationSamples := []\<rparr>) [[1], [2]]
       = GetError lid_model [[1], [2]]
   \<and> length (ValidationParameters lid_model) = length [[1 :: real]]
   \<and> list_all (\<lambda>r. length r = M lid_model) [[1]]
   \<and> (\<nexists>e. fst (GetError lid_model [[1]]) = Inl e)
   \<and> \<not> list_all (\<lambda>r. length r = M lid_model) [[1, 2]]
   \<and> GetError lid_model [[1, 2]] = (Inl ValueError, [])"
proof -
  have w: "wf_modes lid_model" by (simp add: wf_modes_def lid_model_def)
  have p: "M lid_model = 1" "ValidationParameters lid_model = [[200, 90]]"
    by (simp_all add: lid_model_def)
  from GetError_raises [of lid_model "[[1], [2]]" "[]" "[]"] GetError_raises [of lid_model "[[1]]"]
    GetError_raises [of lid_model "[[1, 2]]"]
  show ?thesis
    using w by (auto simp: p prod_eq_iff)
qed

text \<open>
  Claim C8 as stated fails for a batch with the right number of rows and the wrong
  width: the counts are equal and \<open>GetError\<close> raises.
\<close>

theorem GetError_equal_counts_counterexample:
  "length (ValidationParameters lid_model) = length [[1, 2 :: real]]
   \<and> GetError lid_model [[1, 2]] = (Inl ValueError, [])"
  by (simp add: GetError_def lid_model_def Let_def)

section \<open>The stream-function relaxation\<close>



























section \<open>The constant 3.14159265359 and the number pi\<close>

text \<open>The code converts degrees to radians with the literal \<open>3.14159265359\<close>.  The
  partial sums of the alternating arctangent series bracket the arctangent, and the
  formula \<open>pi/4 = 5 arctan (1/7) + 2 arctan (3/79)\<close> then brackets \<open>pi\<close>: the literal
  exceeds \<open>pi\<close> by less than \<open>1e-11\<close>.\<close>

lemma arctan_partial_sums:
  fixes x :: real
  assumes "0 \<le> x" "x \<le> 1"
  shows "(\<Sum>i<2 * n. (- 1) ^ i * arctan_term x i) \<le> arctan x"
    and "arctan x \<le> (\<Sum>i<2 * n + 1. (- 1) ^ i * arctan_term x i)"
proof -
  have ax: "\<bar>x\<bar> \<le> 1" using assms by simp
  have z: "arctan_term x \<longlonglongrightarrow> 0"
    unfolding arctan_term_def [abs_def] by (rule zeroseq_arctan_series [OF ax])
  have p: "0 \<le> arctan_term x n" for n
    using assms by (simp add: arctan_term_def)
  have m: "arctan_term x (Suc n) \<le> arctan_term x n" for n
  proof -
    have "x ^ (Suc n * 2 + 1) \<le> x ^ (n * 2 + 1)"
      using assms by (intro power_decreasing) simp_all
    moreover have "1 / real (Suc n * 2 + 1) \<le> 1 / real (n * 2 + 1)"
      by (intro divide_left_mono) simp_all
    ultimately show ?thesis
      unfolding arctan_term_def using assms
      by (intro mult_mono) simp_all
  qed
  have s: "arctan x = (\<Sum>k. (- 1) ^ k * arctan_term x k)"
    unfolding arctan_term_def by (rule arctan_series [OF ax])
  show "(\<Sum>i<2 * n. (- 1) ^ i * arctan_term x i) \<le> arctan x"
    unfolding s by (rule summable_Leibniz'(2) [OF z p m])
  show "arctan x \<le> (\<Sum>i<2 * n + 1. (- 1) ^ i * arctan_term x i)"
    unfolding s by (rule summable_Leibniz'(4) [OF z p m])
qed

lemma pi_upper: "pi < 3.14159265359"
proof -
  have a: "arctan (1 / 7) \<le> (\<Sum>i<2 * 4 + 1. (- 1) ^ i * arctan_term (1 / 7) i)"
    by (rule arctan_partial_sums) simp_all
  have b: "arctan (3 / 79) \<le> (\<Sum>i<2 * 2 + 1. (- 1) ^ i * arctan_term (3 / 79) i)"
    by (rule arctan_partial_sums) simp_all
  have "pi = 4 * (5 * arctan (1 / 7) + 2 * arctan (3 / 79))"
    using machin_Euler by simp
  also have "\<dots> \<le> 4 * (5 * (\<Sum>i<2 * 4 + 1. (- 1) ^ i * arctan_term (1 / 7) i)
                      + 2 * (\<Sum>i<2 * 2 + 1. (- 1) ^ i * arctan_term (3 / 79) i))"
    using a b by simp
  also have "\<dots> < 3.14159265359"
    by (simp add: arctan_term_def lessThan_nat_numeral lessThan_Suc power_divide)
  finally show ?thesis .
qed

lemma pi_lower: "3.14159265358 < pi"
proof -
  have a: "(\<Sum>i<2 * 4. (- 1) ^ i * arctan_term (1 / 7) i) \<le> arctan (1 / 7)"
    by (rule arctan_partial_sums) simp_all
  have b: "(\<Sum>i<2 * 2. (- 1) ^ i * arctan_term (3 / 79) i) \<le> arctan (3 / 79)"
    by (rule arctan_partial_sums) simp_all
  have "3.14159265358 < 4 * (5 * (\<Sum>i<2 * 4. (- 1) ^ i * arctan_term (1 / 7) i)
                      + 2 * (\<Sum>i<2 * 2. (- 1) ^ i * arctan_term (3 / 79) i))"
    by (simp add: arctan_term_def lessThan_nat_numeral lessThan_Suc power_divide)
  also have "\<dots> \<le> 4 * (5 * arctan (1 / 7) + 2 * arctan (3 / 79))"
    using a b by simp
  also have "\<dots> = pi"
    using machin_Euler by simp
  finally show ?thesis .
qed


section \<open>The coordinate map\<close>

















lemma theta90:
  fixes t :: real
  defines "t \<equiv> 90 / 180 * 3.14159265359"
  shows "1 - 1 / 10 ^ 22 \<le> sin t" and "sin t \<le> 1" and "\<bar>cos t\<bar> \<le> 5 / 10 ^ 12"
proof -
  define d where "d = t - pi / 2"
  have d: "0 < d" "d < 5 / 10 ^ 12"
    using pi_upper pi_lower by (simp_all add: d_def t_def)
  have t: "t = pi / 2 + d" by (simp add: d_def)
  have st: "sin t = cos d" unfolding t by (simp add: sin_add)
  have ct: "cos t = - sin d" unfolding t by (simp add: cos_add)
  have "cos d = 1 - 2 * (sin (d / 2))\<^sup>2"
    using cos_double_sin [of "d / 2"] by simp
  moreover have "(sin (d / 2))\<^sup>2 \<le> (d / 2)\<^sup>2"
  proof -
    have "\<bar>sin (d / 2)\<bar> \<le> \<bar>d / 2\<bar>" by (rule abs_sin_x_le_abs_x)
    then show ?thesis by (simp only: abs_le_square_iff)
  qed
  moreover have "(d / 2)\<^sup>2 \<le> (5 / 10 ^ 12 / 2)\<^sup>2"
    using d by (intro power_mono) simp_all
  moreover have "2 * (5 / 10 ^ 12 / 2 :: real)\<^sup>2 \<le> 1 / 10 ^ 22" by (simp add: power2_eq_square)
  ultimately show "1 - 1 / 10 ^ 22 \<le> sin t" unfolding st by linarith
  show "sin t \<le> 1" by simp
  have "\<bar>sin d\<bar> \<le> \<bar>d\<bar>" by (rule abs_sin_x_le_abs_x)
  then show "\<bar>cos t\<bar> \<le> 5 / 10 ^ 12" using d by (simp add: ct)
qed

lemma sin53_theta90: "sin53 (90 / 180 * 3.14159265359) = 1"
proof -
  let ?s = "sin (90 / 180 * 3.14159265359 :: real)"
  have "\<bar>?s * 2 ^ 53 - of_int (2 ^ 53)\<bar> < 1 / 2"
  proof -
    have "?s * 2 ^ 53 - of_int (2 ^ 53) = - ((1 - ?s) * 2 ^ 53)" by (simp add: algebra_simps)
    moreover have "0 \<le> (1 - ?s) * 2 ^ 53" using theta90(2) by simp
    moreover have "(1 - ?s) * 2 ^ 53 \<le> 1 / 10 ^ 22 * 2 ^ 53"
      using theta90(1) by (intro mult_right_mono) simp_all
    moreover have "(1 :: real) / 10 ^ 22 * 2 ^ 53 < 1 / 2" by simp
    ultimately show ?thesis by linarith
  qed
  then have "round (?s * 2 ^ 53) = 2 ^ 53" by (rule round_unique')
  then show ?thesis by (simp add: sin53_def round53_def)
qed

lemma abs_round_le: "\<bar>of_int (round x) :: real\<bar> \<le> \<bar>x\<bar> + 1 / 2"
  using of_int_round_abs_le [of x] by linarith

lemma cos53_theta90: "\<bar>cos53 (90 / 180 * 3.14159265359)\<bar> \<le> 1 / 10 ^ 11"
proof -
  let ?c = "cos (90 / 180 * 3.14159265359 :: real)"
  have "\<bar>of_int (round (?c * 2 ^ 53))\<bar> \<le> \<bar>?c\<bar> * 2 ^ 53 + 1 / 2"
    using abs_round_le [of "?c * 2 ^ 53"] by (simp add: abs_mult)
  also have "\<dots> \<le> 5 / 10 ^ 12 * 2 ^ 53 + 1 / 2"
    using theta90(3) by simp
  finally have "\<bar>of_int (round (?c * 2 ^ 53)) / 2 ^ 53 :: real\<bar> \<le> (5 / 10 ^ 12 * 2 ^ 53 + 1 / 2) / 2 ^ 53"
    by (simp add: divide_right_mono)
  also have "\<dots> \<le> 1 / 10 ^ 11" by simp
  finally show ?thesis by (simp add: cos53_def round53_def)
qed

lemma getJac_200_90:
  "getJac cosf sinf [[200, 90]] =
     ([[2]], [[0]],
      [[- cosf (90 / 180 * 3.14159265359) / sinf (90 / 180 * 3.14159265359) / (1 / 2)]],
      [[1 / (1 / 2) / sinf (90 / 180 * 3.14159265359)]])"
  by (simp add: getJac_def Theta_of_def cols_def Let_def)

lemma Jac_bounds_90:
  fixes s c :: real
  assumes "1 - 1 / 10 ^ 22 \<le> s" "s \<le> 1" "\<bar>c\<bar> \<le> 5 / 10 ^ 12"
  shows "\<bar>- c / s / (1 / 2)\<bar> < 1 / 10 ^ 10" and "\<bar>1 / (1 / 2) / s - 2\<bar> < 1 / 10 ^ 20"
proof -
  have s: "1 / 2 \<le> s" "0 < s" using assms(1) by simp_all
  have "\<bar>- c / s / (1 / 2)\<bar> = 2 * \<bar>c\<bar> / s" using s by (simp add: abs_mult)
  also have "\<dots> \<le> 2 * (5 / 10 ^ 12) / (1 / 2)"
    using assms(3) s by (intro frac_le) simp_all
  also have "\<dots> < 1 / 10 ^ 10" by simp
  finally show "\<bar>- c / s / (1 / 2)\<bar> < 1 / 10 ^ 10" .
  have "1 / (1 / 2) / s - 2 = 2 * (1 - s) / s" using s by (simp add: field_simps)
  moreover have "0 \<le> 2 * (1 - s) / s" using assms(2) s by simp
  moreover have "2 * (1 - s) / s \<le> 2 * (1 / 10 ^ 22) / (1 / 2)"
    using assms s by (intro frac_le) simp_all
  moreover have "2 * (1 / 10 ^ 22) / (1 / 2) < (1 :: real) / 10 ^ 20" by simp
  ultimately show "\<bar>1 / (1 / 2) / s - 2\<bar> < 1 / 10 ^ 20" by linarith
qed

text \<open>
  Claim C5.  For the batch \<open>alpha = [[200, 90]]\<close> and whatever trigonometric functions
  are passed in, \<open>getJac\<close> returns \<open>Jac11 = 2\<close> and \<open>Jac12 = 0\<close>; whenever the sine
  passed in returns 1 at \<open>Theta = 90 / 180 * 3.14159265359\<close>, as the binary64 sine does,
  it returns \<open>Jac22 = 2\<close> and \<open>Jac21 = - 2 cos(Theta)\<close>.  With the exact sine and
  cosine \<open>Jac21\<close> is within \<open>1e-10\<close> of 0 and \<open>Jac22\<close> within \<open>1e-20\<close> of 2.
\<close>

theorem getJac_at_200_90:
  "(\<forall>cosf sinf.
       fst (getJac cosf sinf [[200, 90]]) = [[2]]
     \<and> fst (snd (getJac cosf sinf [[200, 90]])) = [[0]]
     \<and> (sinf (90 / 180 * 3.14159265359) = 1 \<longrightarrow>
          fst (snd (snd (getJac cosf sinf [[200, 90]]))) = [[- 2 * cosf (90 / 180 * 3.14159265359)]]
        \<and> snd (snd (snd (getJac cosf sinf [[200, 90]]))) = [[2]]))
   \<and> \<bar>fst (snd (snd (getJac cos sin [[200, 90]]))) ! 0 ! 0\<bar> < 1 / 10 ^ 10
   \<and> \<bar>snd (snd (snd (getJac cos sin [[200, 90]]))) ! 0 ! 0 - 2\<bar> < 1 / 10 ^ 20"
  using Jac_bounds_90 [OF theta90]
  by (simp add: getJac_200_90)

theorem getJac_at_200_90_witness:
  "sin53 (90 / 180 * 3.14159265359) = 1
   \<and> getJac cos53 sin53 [[200, 90]] =
       ([[2]], [[0]], [[- 2 * cos53 (90 / 180 * 3.14159265359)]], [[2]])
   \<and> \<bar>- 2 * cos53 (90 / 180 * 3.14159265359)\<bar> < 1 / 10 ^ 10"
proof -
  have "\<bar>- 2 * cos53 (90 / 180 * 3.14159265359)\<bar> \<le> 2 * (1 / 10 ^ 11)"
    using cos53_theta90 by (simp add: abs_mult)
  also have "\<dots> < 1 / 10 ^ 10" by simp
  finally have c: "\<bar>- 2 * cos53 (90 / 180 * 3.14159265359)\<bar> < 1 / 10 ^ 10" .
  from getJac_at_200_90 have
    "fst (getJac cos53 sin53 [[200, 90]]) = [[2]]
     \<and> fst (snd (getJac cos53 sin53 [[200, 90]])) = [[0]]
     \<and> (sin53 (90 / 180 * 3.14159265359) = 1 \<longrightarrow>
          fst (snd (snd (getJac cos53 sin53 [[200, 90]]))) = [[- 2 * cos53 (90 / 180 * 3.14159265359)]]
        \<and> snd (snd (snd (getJac cos53 sin53 [[200, 90]]))) = [[2]])"
    by blast
  with sin53_theta90 c show ?thesis
    by (simp add: prod_eq_iff)
qed

end
